theory Spec2Isabelle
  imports Complex_Main
begin

section \<open>Errors and arrays\<close>

text \<open>
  The builders of \<^verbatim>\<open>MatrixBuilder.cc\<close> are templates over the scalar type \<open>T\<close> (float or
  double). The embedding reads \<open>T\<close> as \<^typ>\<open>real\<close>: sums, products, \<open>exp\<close> and \<open>sqrt\<close> are
  the exact ones, rounding is not modelled. Orders, sizes and indices are natural numbers.

  \<open>LengthError\<close> and \<open>LogicError\<close> are the two exceptions the file throws. \<open>OutOfBounds\<close>
  stands for an index or a view range outside an array, \<open>SizeMismatch\<close> for an Eigen
  operation on operands of different shapes (an assignment through a view never resizes
  its target).
\<close>

datatype error = LengthError | LogicError string | OutOfBounds | SizeMismatch

definition andThen :: "error + 'a \<Rightarrow> ('a \<Rightarrow> error + 'b) \<Rightarrow> error + 'b" where
  "andThen m f = (case m of Inl e \<Rightarrow> Inl e | Inr v \<Rightarrow> f v)"

text \<open>A loop over a sequence whose body may fail: the first failure ends it.\<close>

primrec foldE :: "('s \<Rightarrow> 'a \<Rightarrow> error + 's) \<Rightarrow> 'a list \<Rightarrow> 's \<Rightarrow> error + 's" where
  "foldE f [] s = Inr s"
| "foldE f (x # xs) s = andThen (f s x) (foldE f xs)"

text \<open>
  A two-dimensional array (\<open>ndarray::Array<T,2,...>\<close>, an Eigen map or matrix) is its
  number of rows and the list of its columns.
\<close>

record Array2 =
  nrows :: nat
  columns :: "real list list"

definition ncols :: "Array2 \<Rightarrow> nat" where
  "ncols m = length (columns m)"

text \<open>
  \<open>ndarray::allocate(rows, cols)\<close> and \<open>makeView(workspace, rows, cols)\<close> give an array of
  that shape over memory nobody has written yet; the model fills it with zeros. The
  pointer that \<open>makeView\<close> advances past the view is not modelled.
\<close>

definition allocate :: "nat \<Rightarrow> nat \<Rightarrow> Array2" where
  "allocate r c = \<lparr>nrows = r, columns = replicate c (replicate r 0)\<rparr>"

definition makeView :: "nat \<Rightarrow> nat \<Rightarrow> Array2" where
  "makeView r c = \<lparr>nrows = r, columns = replicate c (replicate r 0)\<rparr>"

definition makeView1 :: "nat \<Rightarrow> real list" where
  "makeView1 n = replicate n 0"

text \<open>\<open>m.col(j)\<close>, read and assigned.\<close>

definition col :: "Array2 \<Rightarrow> nat \<Rightarrow> error + real list" where
  "col m j = (if j < ncols m then Inr (columns m ! j) else Inl OutOfBounds)"

definition setCol :: "Array2 \<Rightarrow> nat \<Rightarrow> real list \<Rightarrow> error + Array2" where
  "setCol m j v =
     (if j < ncols m
      then (if length v = nrows m then Inr (m\<lparr>columns := (columns m)[j := v]\<rparr>)
            else Inl SizeMismatch)
      else Inl OutOfBounds)"

text \<open>\<open>m.deep() = 0.0\<close>\<close>

definition deepZero :: "Array2 \<Rightarrow> Array2" where
  "deepZero m = m\<lparr>columns := replicate (ncols m) (replicate (nrows m) 0)\<rparr>"

text \<open>
  \<open>m[ndarray::view()(0, k)]\<close>: all rows, the first \<open>k\<close> columns. The view shares the
  memory of \<open>m\<close>; \<open>putColRange\<close> stores what was written through it.
\<close>

definition colRange :: "Array2 \<Rightarrow> nat \<Rightarrow> error + Array2" where
  "colRange m k =
     (if k \<le> ncols m then Inr \<lparr>nrows = nrows m, columns = take k (columns m)\<rparr>
      else Inl OutOfBounds)"

definition putColRange :: "Array2 \<Rightarrow> Array2 \<Rightarrow> Array2" where
  "putColRange m v = m\<lparr>columns := columns v @ drop (ncols v) (columns m)\<rparr>"

text \<open>\<open>m[ndarray::view(0, k)]\<close>: the first \<open>k\<close> rows, all columns.\<close>

definition rowRange :: "Array2 \<Rightarrow> nat \<Rightarrow> error + Array2" where
  "rowRange m k =
     (if k \<le> nrows m then Inr \<lparr>nrows = k, columns = map (take k) (columns m)\<rparr>
      else Inl OutOfBounds)"

definition putRowRange :: "Array2 \<Rightarrow> Array2 \<Rightarrow> Array2" where
  "putRowRange m v =
     m\<lparr>columns := map2 (\<lambda>new old. new @ drop (nrows v) old) (columns v) (columns m)\<rparr>"

text \<open>The matrix product \<open>a * b\<close> of Eigen.\<close>

definition matmul :: "Array2 \<Rightarrow> Array2 \<Rightarrow> error + Array2" where
  "matmul a b =
     (if ncols a = nrows b
      then Inr \<lparr>nrows = nrows a,
                columns = map (\<lambda>bc. map (\<lambda>i. sum_list (map (\<lambda>k. columns a ! k ! i * bc ! k)
                                                       [0..<ncols a]))
                                          [0..<nrows a])
                              (columns b)\<rparr>
      else Inl SizeMismatch)"

text \<open>\<open>target = value\<close> and \<open>target += value\<close> on whole arrays of fixed shape.\<close>

definition assign :: "Array2 \<Rightarrow> Array2 \<Rightarrow> error + Array2" where
  "assign target v =
     (if nrows target = nrows v \<and> ncols target = ncols v then Inr v else Inl SizeMismatch)"

definition addAssign :: "Array2 \<Rightarrow> Array2 \<Rightarrow> error + Array2" where
  "addAssign target v =
     (if nrows target = nrows v \<and> ncols target = ncols v
      then Inr \<lparr>nrows = nrows target,
                columns = map2 (\<lambda>tc vc. map2 (+) tc vc) (columns target) (columns v)\<rparr>
      else Inl SizeMismatch)"

text \<open>\<open>m *= s\<close>\<close>

definition scaleAssign :: "Array2 \<Rightarrow> real \<Rightarrow> Array2" where
  "scaleAssign m s = m\<lparr>columns := map (map (\<lambda>v. v * s)) (columns m)\<rparr>"

text \<open>Coefficient-wise operations on one-dimensional arrays.\<close>

definition cwise :: "(real \<Rightarrow> real \<Rightarrow> real) \<Rightarrow> real list \<Rightarrow> real list \<Rightarrow> error + real list" where
  "cwise f u v = (if length u = length v then Inr (map2 f u v) else Inl SizeMismatch)"

section \<open>Constants and collaborators\<close>

text \<open>
  Modelled from the spec: \<open>computeSize\<close>, \<open>intSqrt\<close> and \<open>rationalSqrt\<close> are declared in a
  header that is not part of the sources. The spec gives the basis size of order \<open>n\<close> as
  \<open>(n+1)(n+2)/2\<close>, and the recurrence coefficients as \<open>sqrt(2)\<close>, \<open>sqrt(2/j)\<close> and
  \<open>sqrt((j-1)/j)\<close>.
\<close>

definition computeSize :: "nat \<Rightarrow> nat" where
  "computeSize n = (n + 1) * (n + 2) div 2"

definition intSqrt :: "nat \<Rightarrow> real" where
  "intSqrt n = sqrt (real n)"

definition rationalSqrt :: "nat \<Rightarrow> nat \<Rightarrow> real" where
  "rationalSqrt n d = sqrt (real n / real d)"

text \<open>
  Modelled from the spec: \<open>PackedIndex\<close> is declared in the same missing header. It
  enumerates the pairs (degree in x, degree in y) by increasing total order, with a fixed
  order inside one total order (the spec's example: \<open>(0,0), (1,0), (0,1)\<close>), and numbers
  them from 0. An entry is (index, x, y); \<open>packedIndices n\<close> is the sequence that the loop
  \<open>for (PackedIndex i; i.getOrder() <= n; ++i)\<close> visits.
\<close>

definition computeOffset :: "nat \<Rightarrow> nat" where
  "computeOffset n = n * (n + 1) div 2"

definition packedIndices :: "nat \<Rightarrow> (nat \<times> nat \<times> nat) list" where
  "packedIndices n =
     concat (map (\<lambda>m. map (\<lambda>k. (computeOffset m + k, m - k, k)) [0..<Suc m]) [0..<Suc n])"

text \<open>An \<open>afw::geom::AffineTransform\<close> by its six entries.\<close>

record AffineTransform =
  tXX :: real
  tXY :: real
  tX :: real
  tYX :: real
  tYY :: real
  tY :: real

definition computeDeterminant :: "AffineTransform \<Rightarrow> real" where
  "computeDeterminant t = tXX t * tYY t - tXY t * tYX t"

text \<open>
  The value classes of the package; \<open>'e\<close> is the type of ellipses, which belongs to the
  geometry library.
\<close>

record 'e ShapeletFunction =
  sfOrder :: nat
  sfEllipse :: 'e
  sfCoefficients :: "real list"

record 'e MultiShapeletFunction =
  msfElements :: "'e ShapeletFunction list"

record MultiShapeletBasisComponent =
  bcRadius :: real
  bcOrder :: nat
  bcMatrix :: Array2

record MultiShapeletBasis =
  basisSize :: nat
  basisComponents :: "MultiShapeletBasisComponent list"

text \<open>
  Modelled from the spec: \<open>GaussHermiteConvolution\<close> is constructed from a basis order
  and a PSF shapelet function; its col order is the requested order. Its row order and the
  matrix it evaluates for an ellipse are the collaborator's.
\<close>

record 'e GaussHermiteConvolution =
  ghcColOrder :: nat
  ghcPsf :: "'e ShapeletFunction"

definition GaussHermiteConvolution :: "nat \<Rightarrow> 'e ShapeletFunction \<Rightarrow> 'e GaussHermiteConvolution" where
  "GaussHermiteConvolution n psf = \<lparr>ghcColOrder = n, ghcPsf = psf\<rparr>"

definition getColOrder :: "'e GaussHermiteConvolution \<Rightarrow> nat" where
  "getColOrder c = ghcColOrder c"

text \<open>
  What the file takes from outside: two constants, the geometry of ellipses
  (\<open>getGridTransform\<close>, \<open>convolve\<close>, scaling of the core) and the convolution
  (\<open>getRowOrder\<close>; \<open>evaluate\<close>, which convolves the ellipse it is given in place and returns
  the convolution matrix). They are parameters of the embedding.
\<close>

record 'e Collaborators =
  BASIS_NORMALIZATION :: real
  FLUX_FACTOR :: real
  getGridTransform :: "'e \<Rightarrow> AffineTransform"
  convolve :: "'e \<Rightarrow> 'e \<Rightarrow> 'e"
  scaleCore :: "'e \<Rightarrow> real \<Rightarrow> 'e"
  getRowOrder :: "'e GaussHermiteConvolution \<Rightarrow> nat"
  evaluate :: "'e GaussHermiteConvolution \<Rightarrow> 'e \<Rightarrow> 'e \<times> Array2"

section \<open>The helpers\<close>

text \<open>
  The file is a snapshot in the middle of a refactoring, and some of its names do not
  agree with each other. The embedding follows the bodies of the functions and reads the
  disagreeing names as follows.
  \<^item> \<open>EllipseHelper\<close> declares the transformed coordinates as \<open>xt\<close> and \<open>yt\<close>; the
    evaluators read \<open>xyt\<close>. \<open>xyt.col(0)\<close> is \<open>xt\<close>, \<open>xyt.col(1)\<close> is \<open>yt\<close>, and
    \<open>xyt.rowwise().squaredNorm()\<close> is \<open>xt^2 + yt^2\<close>, sample by sample.
  \<^item> The builders call \<open>readEllipse(this->_xy, ellipse)\<close>; \<open>readEllipse\<close> takes \<open>x\<close> and
    \<open>y\<close>, the two columns of \<open>_xy\<close>.
  \<^item> The builders construct their helpers from the data size (and an order) alone; each
    helper then owns the views its constructor makes.
  \<^item> \<open>ShapeletHelper\<close> is constructed with the largest order it will be used for: the
    member is declared as \<open>_maxOrder\<close> and read by \<open>getMaxOrder\<close>, the shape of the two
    tables has \<open>maxOrder + 1\<close>, and the initialiser list sets it under the name \<open>_order\<close>.
    Every call of its \<open>apply\<close> passes the order to evaluate as a third argument, which the
    parameter list of \<open>apply\<close> does not declare; the body loops up to \<open>_order\<close>. The
    embedding takes the argument of the call as the order that the body loops up to: \<open>order\<close>
    is a parameter of \<open>ShapeletHelper_apply\<close> and of \<open>fillHermite1d\<close>, and \<open>maxOrder\<close> is
    the constructor's.
\<close>

record EllipseHelper =
  detFactor :: real
  xt :: "real list"
  yt :: "real list"

definition EllipseHelper :: "nat \<Rightarrow> EllipseHelper" where
  "EllipseHelper dataSize =
     \<lparr>detFactor = 1, xt = makeView1 dataSize, yt = makeView1 dataSize\<rparr>"

definition readEllipse ::
  "'e Collaborators \<Rightarrow> EllipseHelper \<Rightarrow> real list \<Rightarrow> real list \<Rightarrow> 'e \<Rightarrow> error + EllipseHelper" where
  "readEllipse K h x y ellipse =
     (let transform = getGridTransform K ellipse in
      andThen (cwise (\<lambda>a b. tXX transform * a + tXY transform * b + tX transform) x y) (\<lambda>nx.
      andThen (cwise (\<lambda>a b. tYX transform * a + tYY transform * b + tY transform) x y) (\<lambda>ny.
      if length nx = length (xt h) \<and> length ny = length (yt h)
      then Inr \<lparr>detFactor = computeDeterminant transform, xt = nx, yt = ny\<rparr>
      else Inl SizeMismatch)))"

text \<open>
  \<open>scale\<close> divides by the factor. A factor of zero raises nothing in the source (the
  quotients are infinite or NaN); in HOL \<open>v / 0 = 0\<close>, so statements about \<open>scale\<close> are
  made for nonzero factors.
\<close>

definition scale :: "EllipseHelper \<Rightarrow> real \<Rightarrow> EllipseHelper" where
  "scale h factor =
     h\<lparr>xt := map (\<lambda>v. v / factor) (xt h), yt := map (\<lambda>v. v / factor) (yt h)\<rparr>"

definition NORM :: real where
  "NORM = 1 / sqrt pi"

definition GaussianHelper_apply :: "EllipseHelper \<Rightarrow> real list \<Rightarrow> error + real list" where
  "GaussianHelper_apply ellipseHelper output =
     andThen (cwise (\<lambda>x y. exp (- 0.5 * (x\<^sup>2 + y\<^sup>2)) * detFactor ellipseHelper * NORM)
                (xt ellipseHelper) (yt ellipseHelper)) (\<lambda>g.
     cwise (+) output g)"

record ShapeletHelper =
  maxOrder :: nat
  expWorkspace :: "real list"
  xWorkspace :: Array2
  yWorkspace :: Array2

definition ShapeletHelper :: "nat \<Rightarrow> nat \<Rightarrow> ShapeletHelper" where
  "ShapeletHelper dataSize order =
     \<lparr>maxOrder = order,
      expWorkspace = makeView1 dataSize,
      xWorkspace = makeView (order + 1) dataSize,
      yWorkspace = makeView (order + 1) dataSize\<rparr>"

definition getMaxOrder :: "ShapeletHelper \<Rightarrow> nat" where
  "getMaxOrder h = maxOrder h"

text \<open>The body of the loop \<open>for (int j = 2; j <= _order; ++j)\<close> of \<open>_fillHermite1d\<close>.\<close>

definition hermiteStep :: "real list \<Rightarrow> Array2 \<Rightarrow> nat \<Rightarrow> error + Array2" where
  "hermiteStep coord workspace j =
     andThen (col workspace (j - 1)) (\<lambda>c1.
     andThen (col workspace (j - 2)) (\<lambda>c2.
     andThen (cwise (\<lambda>c v. rationalSqrt 2 j * c * v) coord c1) (\<lambda>a.
     andThen (cwise (\<lambda>u v. u - rationalSqrt (j - 1) j * v) a c2) (\<lambda>r.
     setCol workspace j r))))"

definition fillHermite1d ::
  "'e Collaborators \<Rightarrow> nat \<Rightarrow> Array2 \<Rightarrow> real list \<Rightarrow> error + Array2" where
  "fillHermite1d K order workspace coord =
     andThen (if 0 < ncols workspace
              then setCol workspace 0 (replicate (nrows workspace) (BASIS_NORMALIZATION K))
              else Inr workspace) (\<lambda>w0.
     andThen (if 1 < ncols w0
              then andThen (col w0 0) (\<lambda>c0.
                   andThen (cwise (\<lambda>c v. intSqrt 2 * c * v) coord c0) (\<lambda>c1.
                   setCol w0 1 c1))
              else Inr w0) (\<lambda>w1.
     foldE (hermiteStep coord) [2..<Suc order] w1))"

text \<open>
  The body of the loop over \<open>PackedIndex\<close> of \<open>ShapeletHelper::apply\<close>:
  \<open>view.col(i.getIndex()) += _expWorkspace * _xWorkspace.col(i.getX()) * _yWorkspace.col(i.getY())\<close>.
\<close>

definition accumulateStep ::
  "real list \<Rightarrow> Array2 \<Rightarrow> Array2 \<Rightarrow> Array2 \<Rightarrow> nat \<times> nat \<times> nat \<Rightarrow> error + Array2" where
  "accumulateStep ew xw yw view i =
     (case i of (idx, px, py) \<Rightarrow>
        andThen (col xw px) (\<lambda>xc.
        andThen (col yw py) (\<lambda>yc.
        andThen (cwise (*) ew xc) (\<lambda>a.
        andThen (cwise (*) a yc) (\<lambda>p.
        andThen (col view idx) (\<lambda>vc.
        andThen (cwise (+) vc p) (\<lambda>r.
        setCol view idx r)))))))"

definition ShapeletHelper_apply ::
  "'e Collaborators \<Rightarrow> ShapeletHelper \<Rightarrow> nat \<Rightarrow> EllipseHelper \<Rightarrow> Array2
     \<Rightarrow> error + ShapeletHelper \<times> Array2" where
  "ShapeletHelper_apply K h order ellipseHelper output =
     andThen (cwise (\<lambda>x y. exp (- 0.5 * (x\<^sup>2 + y\<^sup>2)) * detFactor ellipseHelper)
                (xt ellipseHelper) (yt ellipseHelper)) (\<lambda>e.
     if length e \<noteq> length (expWorkspace h) then Inl SizeMismatch
     else
       andThen (fillHermite1d K order (xWorkspace h) (xt ellipseHelper)) (\<lambda>xw.
       andThen (fillHermite1d K order (yWorkspace h) (yt ellipseHelper)) (\<lambda>yw.
       andThen (foldE (accumulateStep e xw yw) (packedIndices order) output) (\<lambda>out.
       Inr (h\<lparr>expWorkspace := e, xWorkspace := xw, yWorkspace := yw\<rparr>, out)))))"

section \<open>The builders\<close>

text \<open>
  The base class keeps the basis size and the samples (\<open>_xy\<close>, here its two columns). Its
  constructor is the only place that compares the lengths of \<open>x\<close> and \<open>y\<close>; every derived
  constructor runs it before it initialises a member of its own.
\<close>

record MatrixBuilderBase =
  mbBasisSize :: nat
  mbX :: "real list"
  mbY :: "real list"

definition MatrixBuilder :: "real list \<Rightarrow> real list \<Rightarrow> nat \<Rightarrow> error + MatrixBuilderBase" where
  "MatrixBuilder x y basisSz =
     (if length x \<noteq> length y then Inl LengthError
      else Inr \<lparr>mbBasisSize = basisSz, mbX = x, mbY = y\<rparr>)"

definition getDataSize :: "MatrixBuilderBase \<Rightarrow> nat" where
  "getDataSize b = length (mbX b)"

subsection \<open>GaussianMatrixBuilder\<close>

record GaussianMatrixBuilder =
  gBase :: MatrixBuilderBase
  gEllipseHelper :: EllipseHelper

definition GaussianMatrixBuilder :: "real list \<Rightarrow> real list \<Rightarrow> error + GaussianMatrixBuilder" where
  "GaussianMatrixBuilder x y =
     andThen (MatrixBuilder x y 1) (\<lambda>base.
     Inr \<lparr>gBase = base, gEllipseHelper = EllipseHelper (getDataSize base)\<rparr>)"

definition GaussianMatrixBuilder_apply ::
  "'e Collaborators \<Rightarrow> GaussianMatrixBuilder \<Rightarrow> Array2 \<Rightarrow> 'e
     \<Rightarrow> error + GaussianMatrixBuilder \<times> Array2" where
  "GaussianMatrixBuilder_apply K b output ellipse =
     (let out0 = deepZero output in
      andThen (readEllipse K (gEllipseHelper b) (mbX (gBase b)) (mbY (gBase b)) ellipse) (\<lambda>eh.
      andThen (col out0 0) (\<lambda>c.
      andThen (GaussianHelper_apply eh c) (\<lambda>c'.
      andThen (setCol out0 0 c') (\<lambda>out.
      Inr (b\<lparr>gEllipseHelper := eh\<rparr>, out))))))"

subsection \<open>ConvolvedGaussianMatrixBuilder\<close>

record 'e ConvolvedGaussianMatrixBuilder =
  cgBase :: MatrixBuilderBase
  cgEllipseHelper :: EllipseHelper
  cgPsfEllipse :: 'e
  cgPsfCoefficient :: real

definition ConvolvedGaussianMatrixBuilder ::
  "real list \<Rightarrow> real list \<Rightarrow> 'e \<Rightarrow> real \<Rightarrow> error + 'e ConvolvedGaussianMatrixBuilder" where
  "ConvolvedGaussianMatrixBuilder x y psfEllipse psfCoefficient =
     andThen (MatrixBuilder x y 1) (\<lambda>base.
     Inr \<lparr>cgBase = base, cgEllipseHelper = EllipseHelper (getDataSize base),
          cgPsfEllipse = psfEllipse, cgPsfCoefficient = psfCoefficient\<rparr>)"

definition ConvolvedGaussianMatrixBuilder_apply ::
  "'e Collaborators \<Rightarrow> 'e ConvolvedGaussianMatrixBuilder \<Rightarrow> Array2 \<Rightarrow> 'e
     \<Rightarrow> error + 'e ConvolvedGaussianMatrixBuilder \<times> Array2" where
  "ConvolvedGaussianMatrixBuilder_apply K b output ellipse =
     (let out0 = deepZero output in
      andThen (readEllipse K (cgEllipseHelper b) (mbX (cgBase b)) (mbY (cgBase b))
                 (convolve K ellipse (cgPsfEllipse b))) (\<lambda>eh.
      andThen (col out0 0) (\<lambda>c.
      andThen (GaussianHelper_apply eh c) (\<lambda>c'.
      andThen (setCol out0 0 c') (\<lambda>out.
      Inr (b\<lparr>cgEllipseHelper := eh\<rparr>,
           scaleAssign out (cgPsfCoefficient b / FLUX_FACTOR K)))))))"

subsection \<open>ShapeletMatrixBuilder\<close>

record ShapeletMatrixBuilder =
  sBase :: MatrixBuilderBase
  sOrder :: nat
  sEllipseHelper :: EllipseHelper
  sShapeletHelper :: ShapeletHelper

definition ShapeletMatrixBuilder ::
  "real list \<Rightarrow> real list \<Rightarrow> nat \<Rightarrow> error + ShapeletMatrixBuilder" where
  "ShapeletMatrixBuilder x y order =
     andThen (MatrixBuilder x y (computeSize order)) (\<lambda>base.
     Inr \<lparr>sBase = base, sOrder = order,
          sEllipseHelper = EllipseHelper (getDataSize base),
          sShapeletHelper = ShapeletHelper (getDataSize base) order\<rparr>)"

definition ShapeletMatrixBuilder_apply ::
  "'e Collaborators \<Rightarrow> ShapeletMatrixBuilder \<Rightarrow> Array2 \<Rightarrow> 'e
     \<Rightarrow> error + ShapeletMatrixBuilder \<times> Array2" where
  "ShapeletMatrixBuilder_apply K b output ellipse =
     (let out0 = deepZero output in
      andThen (readEllipse K (sEllipseHelper b) (mbX (sBase b)) (mbY (sBase b)) ellipse) (\<lambda>eh.
      andThen (ShapeletHelper_apply K (sShapeletHelper b) (sOrder b) eh out0) (\<lambda>(sh, out).
      Inr (b\<lparr>sEllipseHelper := eh, sShapeletHelper := sh\<rparr>, out))))"

subsection \<open>ConvolvedShapeletMatrixBuilder\<close>

record 'e ConvolvedShapeletMatrixBuilder =
  csBase :: MatrixBuilderBase
  csConvolution :: "'e GaussHermiteConvolution"
  csConvolutionWorkspace :: Array2
  csEllipseHelper :: EllipseHelper
  csShapeletHelper :: ShapeletHelper

definition ConvolvedShapeletMatrixBuilder ::
  "'e Collaborators \<Rightarrow> real list \<Rightarrow> real list \<Rightarrow> 'e ShapeletFunction \<Rightarrow> nat
     \<Rightarrow> error + 'e ConvolvedShapeletMatrixBuilder" where
  "ConvolvedShapeletMatrixBuilder K x y psf order =
     andThen (MatrixBuilder x y (computeSize order)) (\<lambda>base.
     (let convolution = GaussHermiteConvolution order psf in
      Inr \<lparr>csBase = base, csConvolution = convolution,
           csConvolutionWorkspace = allocate (getDataSize base) (getRowOrder K convolution),
           csEllipseHelper = EllipseHelper (getDataSize base),
           csShapeletHelper = ShapeletHelper (getDataSize base) (getRowOrder K convolution)\<rparr>))"

definition ConvolvedShapeletMatrixBuilder_apply ::
  "'e Collaborators \<Rightarrow> 'e ConvolvedShapeletMatrixBuilder \<Rightarrow> Array2 \<Rightarrow> 'e
     \<Rightarrow> error + 'e ConvolvedShapeletMatrixBuilder \<times> Array2" where
  "ConvolvedShapeletMatrixBuilder_apply K b output ellipse =
     (let ws0 = deepZero (csConvolutionWorkspace b);
          (convolvedEllipse, convolutionMatrix) = evaluate K (csConvolution b) ellipse in
      andThen (readEllipse K (csEllipseHelper b) (mbX (csBase b)) (mbY (csBase b))
                 convolvedEllipse) (\<lambda>eh.
      andThen (ShapeletHelper_apply K (csShapeletHelper b) (getColOrder (csConvolution b))
                 eh ws0) (\<lambda>(sh, ws).
      andThen (matmul ws convolutionMatrix) (\<lambda>p.
      andThen (assign output p) (\<lambda>out.
      Inr (b\<lparr>csConvolutionWorkspace := ws, csEllipseHelper := eh, csShapeletHelper := sh\<rparr>,
           out))))))"

subsection \<open>MultiShapeletMatrixBuilder0\<close>

text \<open>
  The class also declares an Eigen matrix \<open>_convolutionWorkspace\<close> that no function reads
  or writes; the record leaves it out.
\<close>

record MultiShapeletMatrixBuilder0 =
  mBasis :: MultiShapeletBasis
  mBase :: MatrixBuilderBase
  mEllipseHelper :: EllipseHelper
  mShapeletHelper :: ShapeletHelper
  mBasisWorkspace :: Array2

definition computeMaxOrder :: "MultiShapeletBasis \<Rightarrow> nat" where
  "computeMaxOrder basis = foldl (\<lambda>m c. max m (bcOrder c)) 0 (basisComponents basis)"

definition MultiShapeletMatrixBuilder0 ::
  "real list \<Rightarrow> real list \<Rightarrow> MultiShapeletBasis \<Rightarrow> error + MultiShapeletMatrixBuilder0" where
  "MultiShapeletMatrixBuilder0 x y basis =
     andThen (MatrixBuilder x y (basisSize basis)) (\<lambda>base.
     (let shapeletHelper = ShapeletHelper (getDataSize base) (computeMaxOrder basis) in
      Inr \<lparr>mBasis = basis, mBase = base,
           mEllipseHelper = EllipseHelper (getDataSize base),
           mShapeletHelper = shapeletHelper,
           mBasisWorkspace =
             allocate (getDataSize base) (computeSize (getMaxOrder shapeletHelper))\<rparr>))"

text \<open>
  The state of the loop over the components: the two helpers, the basis workspace, the
  output and \<open>lastRadius\<close>.
\<close>

type_synonym multiState = "EllipseHelper \<times> ShapeletHelper \<times> Array2 \<times> Array2 \<times> real"

definition multiStep ::
  "'e Collaborators \<Rightarrow> multiState \<Rightarrow> MultiShapeletBasisComponent \<Rightarrow> error + multiState" where
  "multiStep K s c =
     (case s of (eh, sh, ws, out, lastRadius) \<Rightarrow>
        (let eh1 = scale eh (bcRadius c / lastRadius) in
         andThen (colRange ws (computeSize (bcOrder c))) (\<lambda>view.
         andThen (ShapeletHelper_apply K sh (bcOrder c) eh1 (deepZero view)) (\<lambda>(sh1, view1).
         andThen (matmul view1 (bcMatrix c)) (\<lambda>p.
         andThen (addAssign out p) (\<lambda>out1.
         Inr (eh1, sh1, putColRange ws view1, out1, bcRadius c)))))))"

definition MultiShapeletMatrixBuilder0_apply ::
  "'e Collaborators \<Rightarrow> MultiShapeletMatrixBuilder0 \<Rightarrow> Array2 \<Rightarrow> 'e
     \<Rightarrow> error + MultiShapeletMatrixBuilder0 \<times> Array2" where
  "MultiShapeletMatrixBuilder0_apply K b output ellipse =
     (let out0 = deepZero output in
      andThen (readEllipse K (mEllipseHelper b) (mbX (mBase b)) (mbY (mBase b)) ellipse) (\<lambda>eh.
      andThen (foldE (multiStep K) (basisComponents (mBasis b))
                 (eh, mShapeletHelper b, mBasisWorkspace b, out0, 1)) (\<lambda>(eh1, sh1, ws1, out1, r).
      Inr (b\<lparr>mEllipseHelper := eh1, mShapeletHelper := sh1, mBasisWorkspace := ws1\<rparr>,
           out1))))"

subsection \<open>ConvolvedMultiShapeletMatrixBuilder\<close>

record 'e Component =
  convolution :: "'e GaussHermiteConvolution"
  radius :: real
  matrix :: Array2

definition Component ::
  "MultiShapeletBasisComponent \<Rightarrow> 'e ShapeletFunction \<Rightarrow> 'e Component" where
  "Component component psf =
     \<lparr>convolution = GaussHermiteConvolution (bcOrder component) psf,
      radius = bcRadius component,
      matrix = bcMatrix component\<rparr>"

definition getRowSize :: "'e Collaborators \<Rightarrow> 'e Component \<Rightarrow> nat" where
  "getRowSize K c = computeSize (getRowOrder K (convolution c))"

definition getColSize :: "'e Component \<Rightarrow> nat" where
  "getColSize c = computeSize (getColOrder (convolution c))"

record 'e ConvolvedMultiShapeletMatrixBuilder =
  cmBase :: MatrixBuilderBase
  cmEllipseHelper :: EllipseHelper
  cmShapeletHelper :: ShapeletHelper
  cmComponents :: "'e Component list"
  cmBasisWorkspace :: Array2
  cmConvolutionWorkspace :: Array2

definition makeComponents ::
  "MultiShapeletBasis \<Rightarrow> 'e MultiShapeletFunction \<Rightarrow> 'e Component list" where
  "makeComponents basis psf =
     concat (map (\<lambda>b. map (\<lambda>p. Component b p) (msfElements psf)) (basisComponents basis))"

definition ConvolvedMultiShapeletMatrixBuilder ::
  "'e Collaborators \<Rightarrow> real list \<Rightarrow> real list \<Rightarrow> 'e MultiShapeletFunction
     \<Rightarrow> MultiShapeletBasis \<Rightarrow> error + 'e ConvolvedMultiShapeletMatrixBuilder" where
  "ConvolvedMultiShapeletMatrixBuilder K x y psf basis =
     andThen (MatrixBuilder x y (basisSize basis)) (\<lambda>base.
     (let components = makeComponents basis psf;
          maxRowOrder = foldl (\<lambda>m c. max m (getRowOrder K (convolution c))) 0 components;
          maxColOrder = foldl (\<lambda>m c. max m (getColOrder (convolution c))) 0 components in
      Inr \<lparr>cmBase = base,
           cmEllipseHelper = EllipseHelper (getDataSize base),
           cmShapeletHelper = ShapeletHelper (getDataSize base) maxRowOrder,
           cmComponents = components,
           cmBasisWorkspace = allocate (getDataSize base) maxRowOrder,
           cmConvolutionWorkspace = allocate maxRowOrder maxColOrder\<rparr>))"

type_synonym convolvedMultiState = "EllipseHelper \<times> ShapeletHelper \<times> Array2 \<times> Array2 \<times> Array2"

definition convolvedMultiStep ::
  "'e Collaborators \<Rightarrow> real list \<Rightarrow> real list \<Rightarrow> 'e \<Rightarrow> convolvedMultiState \<Rightarrow> 'e Component
     \<Rightarrow> error + convolvedMultiState" where
  "convolvedMultiStep K x y ellipse s c =
     (case s of (eh, sh, basisWs, convWs, out) \<Rightarrow>
        (let tmpEllipse = scaleCore K ellipse (radius c);
             (convolvedEllipse, convolutionMatrix) = evaluate K (convolution c) tmpEllipse in
         andThen (readEllipse K eh x y convolvedEllipse) (\<lambda>eh1.
         andThen (colRange basisWs (getRowSize K c)) (\<lambda>basisView.
         andThen (ShapeletHelper_apply K sh (getColOrder (convolution c)) eh1
                    (deepZero basisView)) (\<lambda>(sh1, basisView1).
         andThen (rowRange convWs (getRowSize K c)) (\<lambda>convolutionView.
         andThen (matmul convolutionMatrix (matrix c)) (\<lambda>p.
         andThen (assign convolutionView p) (\<lambda>convolutionView1.
         andThen (matmul basisView1 convolutionView1) (\<lambda>q.
         andThen (addAssign out q) (\<lambda>out1.
         Inr (eh1, sh1, putColRange basisWs basisView1,
              putRowRange convWs convolutionView1, out1)))))))))))"

definition ConvolvedMultiShapeletMatrixBuilder_apply ::
  "'e Collaborators \<Rightarrow> 'e ConvolvedMultiShapeletMatrixBuilder \<Rightarrow> Array2 \<Rightarrow> 'e
     \<Rightarrow> error + 'e ConvolvedMultiShapeletMatrixBuilder \<times> Array2" where
  "ConvolvedMultiShapeletMatrixBuilder_apply K b output ellipse =
     (let out0 = deepZero output in
      andThen (foldE (convolvedMultiStep K (mbX (cmBase b)) (mbY (cmBase b)) ellipse)
                 (cmComponents b)
                 (cmEllipseHelper b, cmShapeletHelper b, cmBasisWorkspace b,
                  cmConvolutionWorkspace b, out0)) (\<lambda>(eh1, sh1, basisWs1, convWs1, out1).
      Inr (b\<lparr>cmEllipseHelper := eh1, cmShapeletHelper := sh1,
             cmBasisWorkspace := basisWs1, cmConvolutionWorkspace := convWs1\<rparr>,
           out1)))"

section \<open>The factory\<close>

text \<open>
  A \<open>PTR(MatrixBuilder<T>)\<close> points to one of the six classes; \<open>apply\<close> is virtual.
\<close>

datatype 'e MatrixBuilder =
    Gaussian GaussianMatrixBuilder
  | ConvolvedGaussian "'e ConvolvedGaussianMatrixBuilder"
  | Shapelet ShapeletMatrixBuilder
  | ConvolvedShapelet "'e ConvolvedShapeletMatrixBuilder"
  | MultiShapelet0 MultiShapeletMatrixBuilder0
  | ConvolvedMultiShapelet "'e ConvolvedMultiShapeletMatrixBuilder"

definition make_shared :: "('b \<Rightarrow> 'e MatrixBuilder) \<Rightarrow> error + 'b \<Rightarrow> error + 'e MatrixBuilder" where
  "make_shared C r = andThen r (\<lambda>b. Inr (C b))"

text \<open>The five overloads of \<open>makeMatrixBuilder\<close>, named after their arguments.\<close>

definition makeMatrixBuilder_order ::
  "real list \<Rightarrow> real list \<Rightarrow> nat \<Rightarrow> error + 'e MatrixBuilder" where
  "makeMatrixBuilder_order x y order =
     (if order = 0 then make_shared Gaussian (GaussianMatrixBuilder x y)
      else make_shared Shapelet (ShapeletMatrixBuilder x y order))"

definition makeMatrixBuilder_psf_order ::
  "'e Collaborators \<Rightarrow> real list \<Rightarrow> real list \<Rightarrow> 'e ShapeletFunction \<Rightarrow> nat
     \<Rightarrow> error + 'e MatrixBuilder" where
  "makeMatrixBuilder_psf_order K x y psf order =
     (if order = 0 \<and> sfOrder psf = 0
      then (case sfCoefficients psf of
              [] \<Rightarrow> Inl OutOfBounds
            | c # _ \<Rightarrow>
                make_shared ConvolvedGaussian
                  (ConvolvedGaussianMatrixBuilder x y (sfEllipse psf) c))
      else make_shared ConvolvedShapelet (ConvolvedShapeletMatrixBuilder K x y psf order))"

definition makeMatrixBuilder_multipsf_order ::
  "'e Collaborators \<Rightarrow> real list \<Rightarrow> real list \<Rightarrow> 'e MultiShapeletFunction \<Rightarrow> nat
     \<Rightarrow> error + 'e MatrixBuilder" where
  "makeMatrixBuilder_multipsf_order K x y psf order =
     (if length (msfElements psf) = 1
      then makeMatrixBuilder_psf_order K x y (hd (msfElements psf)) order
      else Inl (LogicError ''Not implemented''))"

definition makeMatrixBuilder_basis ::
  "real list \<Rightarrow> real list \<Rightarrow> MultiShapeletBasis \<Rightarrow> error + 'e MatrixBuilder" where
  "makeMatrixBuilder_basis x y basis =
     make_shared MultiShapelet0 (MultiShapeletMatrixBuilder0 x y basis)"

definition makeMatrixBuilder_multipsf_basis ::
  "real list \<Rightarrow> real list \<Rightarrow> 'e MultiShapeletFunction \<Rightarrow> MultiShapeletBasis
     \<Rightarrow> error + 'e MatrixBuilder" where
  "makeMatrixBuilder_multipsf_basis x y psf basis = Inl (LogicError ''Not implemented'')"

definition getBasisSize :: "'e MatrixBuilder \<Rightarrow> nat" where
  "getBasisSize b =
     (case b of
        Gaussian g \<Rightarrow> mbBasisSize (gBase g)
      | ConvolvedGaussian g \<Rightarrow> mbBasisSize (cgBase g)
      | Shapelet g \<Rightarrow> mbBasisSize (sBase g)
      | ConvolvedShapelet g \<Rightarrow> mbBasisSize (csBase g)
      | MultiShapelet0 g \<Rightarrow> mbBasisSize (mBase g)
      | ConvolvedMultiShapelet g \<Rightarrow> mbBasisSize (cmBase g))"

definition withBuilder ::
  "('b \<Rightarrow> 'e MatrixBuilder) \<Rightarrow> error + 'b \<times> Array2 \<Rightarrow> error + 'e MatrixBuilder \<times> Array2" where
  "withBuilder C r = andThen r (\<lambda>(b, out). Inr (C b, out))"

definition MatrixBuilder_apply ::
  "'e Collaborators \<Rightarrow> 'e MatrixBuilder \<Rightarrow> Array2 \<Rightarrow> 'e \<Rightarrow> error + 'e MatrixBuilder \<times> Array2" where
  "MatrixBuilder_apply K b output ellipse =
     (case b of
        Gaussian g \<Rightarrow> withBuilder Gaussian (GaussianMatrixBuilder_apply K g output ellipse)
      | ConvolvedGaussian g \<Rightarrow>
          withBuilder ConvolvedGaussian (ConvolvedGaussianMatrixBuilder_apply K g output ellipse)
      | Shapelet g \<Rightarrow> withBuilder Shapelet (ShapeletMatrixBuilder_apply K g output ellipse)
      | ConvolvedShapelet g \<Rightarrow>
          withBuilder ConvolvedShapelet (ConvolvedShapeletMatrixBuilder_apply K g output ellipse)
      | MultiShapelet0 g \<Rightarrow>
          withBuilder MultiShapelet0 (MultiShapeletMatrixBuilder0_apply K g output ellipse)
      | ConvolvedMultiShapelet g \<Rightarrow>
          withBuilder ConvolvedMultiShapelet
            (ConvolvedMultiShapeletMatrixBuilder_apply K g output ellipse))"

section \<open>Notions for the statements and the proofs\<close>

text \<open>
  The value of the normalized Hermite function of degree \<open>j\<close> at one coordinate, as the
  three assignments of \<open>_fillHermite1d\<close> compute it; \<open>bn\<close> is \<open>BASIS_NORMALIZATION\<close>. The
  proofs use it to name the content of a filled column.
\<close>

fun hermite :: "real \<Rightarrow> nat \<Rightarrow> real \<Rightarrow> real" where
  "hermite bn 0 c = bn"
| "hermite bn (Suc 0) c = intSqrt 2 * c * bn"
| "hermite bn (Suc (Suc j)) c =
     rationalSqrt 2 (Suc (Suc j)) * c * hermite bn (Suc j) c
       - rationalSqrt (Suc j) (Suc (Suc j)) * hermite bn j c"


text \<open>
  The table \<open>w\<close> (one column per degree, one entry per coordinate) holds the values of the
  three-term recurrence for the coordinates \<open>coord\<close> at the degrees 0 to \<open>n\<close>. This follows
  the words of the spec: degree 0 is the normalization constant, degree 1 is
  \<open>sqrt(2) * coord * value[0]\<close>, degree \<open>j \<ge> 2\<close> is
  \<open>sqrt(2/j) * coord * value[j-1] - sqrt((j-1)/j) * value[j-2]\<close>.
\<close>

definition hermiteRecurrence :: "real \<Rightarrow> nat \<Rightarrow> real list \<Rightarrow> Array2 \<Rightarrow> bool" where
  "hermiteRecurrence bn n coord w \<longleftrightarrow>
     (\<forall>k < length coord.
        columns w ! 0 ! k = bn
      \<and> (1 \<le> n \<longrightarrow> columns w ! 1 ! k = sqrt 2 * coord ! k * columns w ! 0 ! k)
      \<and> (\<forall>j. 2 \<le> j \<and> j \<le> n \<longrightarrow>
             columns w ! j ! k
               = sqrt (2 / real j) * coord ! k * columns w ! (j - 1) ! k
                   - sqrt (real (j - 1) / real j) * columns w ! (j - 2) ! k))"


text \<open>\<open>exp(-0.5 * (xt^2 + yt^2)) * detFactor\<close>, sample by sample.\<close>

definition envelope :: "EllipseHelper \<Rightarrow> real list" where
  "envelope h = map2 (\<lambda>x y. exp (- 0.5 * (x\<^sup>2 + y\<^sup>2)) * detFactor h) (xt h) (yt h)"


text \<open>
  The columns of \<open>w\<close> up to index \<open>m\<close> that exist hold the Hermite values; and the condition
  on the shape of a table under which \<open>fillHermite1d\<close> returns.
\<close>

definition canonUpTo :: "real \<Rightarrow> real list \<Rightarrow> nat \<Rightarrow> Array2 \<Rightarrow> bool" where
  "canonUpTo bn coord m w \<longleftrightarrow> (\<forall>j\<le>m. j < ncols w \<longrightarrow> columns w ! j = map (hermite bn j) coord)"

definition fillOk :: "nat \<Rightarrow> Array2 \<Rightarrow> real list \<Rightarrow> bool" where
  "fillOk n ws coord \<longleftrightarrow> (1 < ncols ws \<longrightarrow> length coord = nrows ws) \<and> (2 \<le> n \<longrightarrow> n < ncols ws)"


text \<open>
  The persistent state of a builder: the builder with every scratch array blanked. The
  shapes of the scratch arrays stay, their contents and \<open>detFactor\<close> go. Two builders with
  the same persistent state differ at most in what their scratch arrays hold.
\<close>

definition clearEllipseHelper :: "EllipseHelper \<Rightarrow> EllipseHelper" where
  "clearEllipseHelper h =
     \<lparr>detFactor = 1, xt = makeView1 (length (xt h)), yt = makeView1 (length (yt h))\<rparr>"

definition clearShapeletHelper :: "ShapeletHelper \<Rightarrow> ShapeletHelper" where
  "clearShapeletHelper h =
     h\<lparr>expWorkspace := makeView1 (length (expWorkspace h)),
       xWorkspace := deepZero (xWorkspace h),
       yWorkspace := deepZero (yWorkspace h)\<rparr>"

definition persistentState :: "'e MatrixBuilder \<Rightarrow> 'e MatrixBuilder" where
  "persistentState b =
     (case b of
        Gaussian g \<Rightarrow>
          Gaussian (g\<lparr>gEllipseHelper := clearEllipseHelper (gEllipseHelper g)\<rparr>)
      | ConvolvedGaussian g \<Rightarrow>
          ConvolvedGaussian (g\<lparr>cgEllipseHelper := clearEllipseHelper (cgEllipseHelper g)\<rparr>)
      | Shapelet g \<Rightarrow>
          Shapelet (g\<lparr>sEllipseHelper := clearEllipseHelper (sEllipseHelper g),
                      sShapeletHelper := clearShapeletHelper (sShapeletHelper g)\<rparr>)
      | ConvolvedShapelet g \<Rightarrow>
          ConvolvedShapelet (g\<lparr>csConvolutionWorkspace := deepZero (csConvolutionWorkspace g),
                               csEllipseHelper := clearEllipseHelper (csEllipseHelper g),
                               csShapeletHelper := clearShapeletHelper (csShapeletHelper g)\<rparr>)
      | MultiShapelet0 g \<Rightarrow>
          MultiShapelet0 (g\<lparr>mEllipseHelper := clearEllipseHelper (mEllipseHelper g),
                            mShapeletHelper := clearShapeletHelper (mShapeletHelper g),
                            mBasisWorkspace := deepZero (mBasisWorkspace g)\<rparr>)
      | ConvolvedMultiShapelet g \<Rightarrow>
          ConvolvedMultiShapelet
            (g\<lparr>cmEllipseHelper := clearEllipseHelper (cmEllipseHelper g),
               cmShapeletHelper := clearShapeletHelper (cmShapeletHelper g),
               cmBasisWorkspace := deepZero (cmBasisWorkspace g),
               cmConvolutionWorkspace := deepZero (cmConvolutionWorkspace g)\<rparr>))"


text \<open>
  Relations between two states of the loops over components: \<open>multiSame\<close> and \<open>convSame\<close>
  relate states that differ only in the contents of scratch, \<open>multiShape\<close> and \<open>convShape\<close>
  states whose scratch arrays have the same shapes.
\<close>

definition multiSame :: "multiState \<Rightarrow> multiState \<Rightarrow> bool" where
  "multiSame s t \<longleftrightarrow>
     (case s of (eh, sh, ws, out, lr) \<Rightarrow>
        (case t of (eh2, sh2, ws2, out2, lr2) \<Rightarrow>
           eh2 = eh \<and> clearShapeletHelper sh2 = clearShapeletHelper sh
           \<and> deepZero ws2 = deepZero ws \<and> out2 = out \<and> lr2 = lr))"

definition multiShape :: "multiState \<Rightarrow> multiState \<Rightarrow> bool" where
  "multiShape s t \<longleftrightarrow>
     (case s of (eh, sh, ws, out, lr) \<Rightarrow>
        (case t of (eh2, sh2, ws2, out2, lr2) \<Rightarrow>
           clearEllipseHelper eh2 = clearEllipseHelper eh
           \<and> clearShapeletHelper sh2 = clearShapeletHelper sh
           \<and> deepZero ws2 = deepZero ws))"

definition convSame :: "convolvedMultiState \<Rightarrow> convolvedMultiState \<Rightarrow> bool" where
  "convSame s t \<longleftrightarrow>
     (case s of (eh, sh, bws, cws, out) \<Rightarrow>
        (case t of (eh2, sh2, bws2, cws2, out2) \<Rightarrow>
           clearEllipseHelper eh2 = clearEllipseHelper eh
           \<and> clearShapeletHelper sh2 = clearShapeletHelper sh
           \<and> deepZero bws2 = deepZero bws \<and> deepZero cws2 = deepZero cws \<and> out2 = out))"

definition convShape :: "convolvedMultiState \<Rightarrow> convolvedMultiState \<Rightarrow> bool" where
  "convShape s t \<longleftrightarrow>
     (case s of (eh, sh, bws, cws, out) \<Rightarrow>
        (case t of (eh2, sh2, bws2, cws2, out2) \<Rightarrow>
           clearEllipseHelper eh2 = clearEllipseHelper eh
           \<and> clearShapeletHelper sh2 = clearShapeletHelper sh
           \<and> deepZero bws2 = deepZero bws \<and> deepZero cws2 = deepZero cws))"

section \<open>A concrete instance of the collaborators\<close>

text \<open>
  For evaluating the definitions at concrete inputs: an ellipse is a circle around the
  origin, given by its radius; the grid transform divides by the radius, convolution adds
  the squares of the radii, the row order of a convolution is the sum of the two orders,
  and the convolution matrix is a matrix of ones of the shape the spec gives (basis size of
  the row order by basis size of the col order).
\<close>

definition circleTransform :: "real \<Rightarrow> AffineTransform" where
  "circleTransform r = \<lparr>tXX = 1 / r, tXY = 0, tX = 0, tYX = 0, tYY = 1 / r, tY = 0\<rparr>"

definition onesMatrix :: "nat \<Rightarrow> nat \<Rightarrow> Array2" where
  "onesMatrix r c = \<lparr>nrows = r, columns = replicate c (replicate r 1)\<rparr>"

definition circles :: "real Collaborators" where
  "circles =
     \<lparr>BASIS_NORMALIZATION = 1 / sqrt (sqrt pi),
      FLUX_FACTOR = 2 * sqrt pi,
      getGridTransform = circleTransform,
      convolve = (\<lambda>a b. sqrt (a\<^sup>2 + b\<^sup>2)),
      scaleCore = (\<lambda>r f. r * f),
      getRowOrder = (\<lambda>c. ghcColOrder c + sfOrder (ghcPsf c)),
      evaluate = (\<lambda>c e. (sqrt (e\<^sup>2 + (sfEllipse (ghcPsf c))\<^sup>2),
                          onesMatrix (computeSize (ghcColOrder c + sfOrder (ghcPsf c)))
                                     (computeSize (ghcColOrder c))))\<rparr>"

definition psfA :: "real ShapeletFunction" where
  "psfA = \<lparr>sfOrder = 0, sfEllipse = 1, sfCoefficients = [1]\<rparr>"

definition psfB :: "real ShapeletFunction" where
  "psfB = \<lparr>sfOrder = 0, sfEllipse = 2, sfCoefficients = [1]\<rparr>"

definition basisA :: MultiShapeletBasis where
  "basisA = \<lparr>basisSize = 1,
             basisComponents = [\<lparr>bcRadius = 1, bcOrder = 0, bcMatrix = onesMatrix 1 1\<rparr>]\<rparr>"

definition compA :: MultiShapeletBasisComponent where
  "compA = \<lparr>bcRadius = 1, bcOrder = 1, bcMatrix = onesMatrix 3 2\<rparr>"

definition compB :: MultiShapeletBasisComponent where
  "compB = \<lparr>bcRadius = 2, bcOrder = 1,
            bcMatrix = \<lparr>nrows = 3, columns = [[1, 0, 0], [0, 1, 2]]\<rparr>\<rparr>"

definition basisB :: MultiShapeletBasis where
  "basisB = \<lparr>basisSize = 2, basisComponents = [compA]\<rparr>"

definition compC :: MultiShapeletBasisComponent where
  "compC = \<lparr>bcRadius = 1, bcOrder = 0, bcMatrix = onesMatrix 1 2\<rparr>"

section \<open>Properties of the factory and of construction\<close>

lemma andThen_simps [simp]:
  "andThen (Inl e) f = Inl e"
  "andThen (Inr v) f = f v"
  by (simp_all add: andThen_def)

text \<open>
  C1, as the code has it. The overload of \<open>makeMatrixBuilder\<close> that takes a
  \<open>MultiShapeletFunction\<close> PSF and a \<open>MultiShapeletBasis\<close> throws the logic error
  "Not implemented" for every input; it returns no builder and never constructs a
  \<open>ConvolvedMultiShapeletMatrixBuilder\<close>.
\<close>

theorem makeMatrixBuilder_multipsf_basis_not_implemented:
  "makeMatrixBuilder_multipsf_basis x y psf basis = Inl (LogicError ''Not implemented'')"
  by (simp add: makeMatrixBuilder_multipsf_basis_def)

text \<open>
  C1, as the claim states it, fails: for two samples, a PSF of two elements and a basis of
  one component the factory does not return the convolved multi-shapelet builder that the
  constructor of that class makes from the same arguments.
\<close>

theorem makeMatrixBuilder_multipsf_basis_counterexample:
  "makeMatrixBuilder_multipsf_basis [0, 1] [0, 0] \<lparr>msfElements = [psfA, psfB]\<rparr> basisA
     \<noteq> make_shared ConvolvedMultiShapelet
         (ConvolvedMultiShapeletMatrixBuilder circles [0, 1] [0, 0]
            \<lparr>msfElements = [psfA, psfB]\<rparr> basisA)"
  by (simp add: makeMatrixBuilder_multipsf_basis_def make_shared_def
      ConvolvedMultiShapeletMatrixBuilder_def MatrixBuilder_def Let_def)

text \<open>
  C6. The constructor of each of the six builder classes, given \<open>x\<close> and \<open>y\<close> of unequal
  length, ends with the length error of the base class constructor and yields no builder;
  given \<open>x\<close> and \<open>y\<close> of equal length it does not raise that error.
\<close>

theorem length_mismatch_at_construction:
  "(length x \<noteq> length y \<longrightarrow>
      GaussianMatrixBuilder x y = Inl LengthError
    \<and> ConvolvedGaussianMatrixBuilder x y psfEllipse psfCoefficient = Inl LengthError
    \<and> ShapeletMatrixBuilder x y order = Inl LengthError
    \<and> ConvolvedShapeletMatrixBuilder K x y psf order = Inl LengthError
    \<and> MultiShapeletMatrixBuilder0 x y basis = Inl LengthError
    \<and> ConvolvedMultiShapeletMatrixBuilder K x y mpsf basis = Inl LengthError)
   \<and> (length x = length y \<longrightarrow>
      GaussianMatrixBuilder x y \<noteq> Inl LengthError
    \<and> ConvolvedGaussianMatrixBuilder x y psfEllipse psfCoefficient \<noteq> Inl LengthError
    \<and> ShapeletMatrixBuilder x y order \<noteq> Inl LengthError
    \<and> ConvolvedShapeletMatrixBuilder K x y psf order \<noteq> Inl LengthError
    \<and> MultiShapeletMatrixBuilder0 x y basis \<noteq> Inl LengthError
    \<and> ConvolvedMultiShapeletMatrixBuilder K x y mpsf basis \<noteq> Inl LengthError)"
  by (simp add: GaussianMatrixBuilder_def ConvolvedGaussianMatrixBuilder_def
      ShapeletMatrixBuilder_def ConvolvedShapeletMatrixBuilder_def
      MultiShapeletMatrixBuilder0_def ConvolvedMultiShapeletMatrixBuilder_def
      MatrixBuilder_def Let_def)

theorem length_mismatch_at_construction_witness:
  "GaussianMatrixBuilder [1, 2, 3, 4, 5] [1, 2, 3, 4] = Inl LengthError
   \<and> ConvolvedGaussianMatrixBuilder [1, 2, 3, 4, 5] [1, 2, 3, 4] (1::real) 1 = Inl LengthError
   \<and> ShapeletMatrixBuilder [1, 2, 3, 4, 5] [1, 2, 3, 4] 2 = Inl LengthError
   \<and> ConvolvedShapeletMatrixBuilder circles [1, 2, 3, 4, 5] [1, 2, 3, 4] psfA 2 = Inl LengthError
   \<and> MultiShapeletMatrixBuilder0 [1, 2, 3, 4, 5] [1, 2, 3, 4] basisA = Inl LengthError
   \<and> ConvolvedMultiShapeletMatrixBuilder circles [1, 2, 3, 4, 5] [1, 2, 3, 4]
       \<lparr>msfElements = [psfA, psfB]\<rparr> basisA = Inl LengthError
   \<and> GaussianMatrixBuilder [0, 1] [0, 0] \<noteq> Inl LengthError
   \<and> ConvolvedGaussianMatrixBuilder [0, 1] [0, 0] (1::real) 1 \<noteq> Inl LengthError
   \<and> ShapeletMatrixBuilder [0, 1] [0, 0] 2 \<noteq> Inl LengthError
   \<and> ConvolvedShapeletMatrixBuilder circles [0, 1] [0, 0] psfA 2 \<noteq> Inl LengthError
   \<and> MultiShapeletMatrixBuilder0 [0, 1] [0, 0] basisA \<noteq> Inl LengthError
   \<and> ConvolvedMultiShapeletMatrixBuilder circles [0, 1] [0, 0]
       \<lparr>msfElements = [psfA, psfB]\<rparr> basisA \<noteq> Inl LengthError"
proof -
  have ne: "length [1, 2, 3, 4, 5 :: real] \<noteq> length [1, 2, 3, 4 :: real]" by simp
  have eq: "length [0, 1 :: real] = length [0, 0 :: real]" by simp
  show ?thesis
    using ne eq
      length_mismatch_at_construction
        [of "[1, 2, 3, 4, 5]" "[1, 2, 3, 4]" "1::real" 1 2 circles psfA basisA
            "\<lparr>msfElements = [psfA, psfB]\<rparr>"]
      length_mismatch_at_construction
        [of "[0, 1]" "[0, 0]" "1::real" 1 2 circles psfA basisA
            "\<lparr>msfElements = [psfA, psfB]\<rparr>"]
    by blast
qed

text \<open>
  C7. For a \<open>MultiShapeletFunction\<close> PSF of more than one element and an order, the
  factory throws the logic error "Not implemented"; it returns no builder.
\<close>

theorem multi_element_psf_with_order_rejected:
  "1 < length (msfElements psf) \<Longrightarrow>
     makeMatrixBuilder_multipsf_order K x y psf order = Inl (LogicError ''Not implemented'')"
  by (simp add: makeMatrixBuilder_multipsf_order_def)

theorem multi_element_psf_with_order_rejected_witness:
  "1 < length (msfElements \<lparr>msfElements = [psfA, psfB]\<rparr>)
   \<and> makeMatrixBuilder_multipsf_order circles [0, 1] [0, 0] \<lparr>msfElements = [psfA, psfB]\<rparr> 2
       = Inl (LogicError ''Not implemented'')"
proof -
  have h: "1 < length (msfElements \<lparr>msfElements = [psfA, psfB]\<rparr>)" by simp
  from h multi_element_psf_with_order_rejected [OF h, of circles "[0, 1]" "[0, 0]" 2]
  show ?thesis by blast
qed

text \<open>
  C10. For a \<open>MultiShapeletFunction\<close> PSF of exactly one element, the overload for a
  \<open>MultiShapeletFunction\<close> and an order gives the result of the overload for a
  \<open>ShapeletFunction\<close> and an order at that element, the same samples and the same order:
  the same builder or the same error, hence the same basis size and, for every output
  array and ellipse, the same result of \<open>apply\<close>.
\<close>

theorem single_element_psf_delegates:
  "msfElements psf = [p] \<Longrightarrow>
     makeMatrixBuilder_multipsf_order K x y psf order = makeMatrixBuilder_psf_order K x y p order
   \<and> map_sum id getBasisSize (makeMatrixBuilder_multipsf_order K x y psf order)
       = map_sum id getBasisSize (makeMatrixBuilder_psf_order K x y p order)
   \<and> (\<forall>output ellipse.
        andThen (makeMatrixBuilder_multipsf_order K x y psf order)
                (\<lambda>b. MatrixBuilder_apply K b output ellipse)
      = andThen (makeMatrixBuilder_psf_order K x y p order)
                (\<lambda>b. MatrixBuilder_apply K b output ellipse))"
  by (simp add: makeMatrixBuilder_multipsf_order_def)

theorem single_element_psf_delegates_witness:
  "msfElements \<lparr>msfElements = [psfB]\<rparr> = [psfB]
   \<and> makeMatrixBuilder_multipsf_order circles [0, 1] [0, 0] \<lparr>msfElements = [psfB]\<rparr> 2
       = makeMatrixBuilder_psf_order circles [0, 1] [0, 0] psfB 2
   \<and> map_sum id getBasisSize
       (makeMatrixBuilder_multipsf_order circles [0, 1] [0, 0] \<lparr>msfElements = [psfB]\<rparr> 2)
       = map_sum id getBasisSize (makeMatrixBuilder_psf_order circles [0, 1] [0, 0] psfB 2)"
proof -
  have h: "msfElements \<lparr>msfElements = [psfB]\<rparr> = [psfB]" by simp
  from h single_element_psf_delegates [OF h, of circles "[0, 1]" "[0, 0]" 2]
  show ?thesis by blast
qed

section \<open>Basic facts about the arrays\<close>

lemma andThen_Inr_iff: "andThen m f = Inr r \<longleftrightarrow> (\<exists>v. m = Inr v \<and> f v = Inr r)"
  by (cases m) simp_all

lemma foldE_append: "foldE f (xs @ ys) s = andThen (foldE f xs s) (foldE f ys)"
  by (induction xs arbitrary: s) (simp_all add: andThen_def split: sum.splits)

lemma foldE_cong:
  "(\<And>x s. x \<in> set xs \<Longrightarrow> f s x = g s x) \<Longrightarrow> foldE f xs s = foldE g xs s"
  by (induction xs arbitrary: s) (auto simp: andThen_def split: sum.splits)

lemma setCol_Inr:
  "setCol m j v = Inr m' \<longleftrightarrow>
     j < ncols m \<and> length v = nrows m \<and> m' = m\<lparr>columns := (columns m)[j := v]\<rparr>"
  by (auto simp: setCol_def)

lemma col_Inr: "col m j = Inr c \<longleftrightarrow> j < ncols m \<and> c = columns m ! j"
  by (auto simp: col_def)

lemma cwise_Inr: "cwise f u v = Inr r \<longleftrightarrow> length u = length v \<and> r = map2 f u v"
  by (auto simp: cwise_def)

lemma map2_map_right: "map2 f xs (map g xs) = map (\<lambda>x. f x (g x)) xs"
  by (induction xs) simp_all

lemma map2_map_both: "map2 f (map h xs) (map g xs) = map (\<lambda>x. f (h x) (g x)) xs"
  by (induction xs) simp_all

lemma map2_replicate_right: "map2 f xs (replicate (length xs) y) = map (\<lambda>x. f x y) xs"
  by (induction xs) simp_all

lemma deepZero_eq_iff: "deepZero a = deepZero b \<longleftrightarrow> nrows a = nrows b \<and> ncols a = ncols b"
proof
  assume "deepZero a = deepZero b"
  then have "nrows (deepZero a) = nrows (deepZero b)"
    and "length (columns (deepZero a)) = length (columns (deepZero b))" by simp_all
  then show "nrows a = nrows b \<and> ncols a = ncols b" by (simp add: deepZero_def ncols_def)
next
  assume "nrows a = nrows b \<and> ncols a = ncols b"
  then show "deepZero a = deepZero b" by (simp add: deepZero_def ncols_def)
qed

lemma deepZero_shape [simp]: "nrows (deepZero a) = nrows a" "ncols (deepZero a) = ncols a"
  by (simp_all add: deepZero_def ncols_def)

lemma colRange_Inr:
  "colRange m k = Inr v \<longleftrightarrow> k \<le> ncols m \<and> v = \<lparr>nrows = nrows m, columns = take k (columns m)\<rparr>"
  by (auto simp: colRange_def)

lemma colRange_shape:
  assumes "colRange m k = Inr v"
  shows "nrows v = nrows m" and "ncols v = k" and "k \<le> ncols m"
  using assms by (auto simp: colRange_Inr ncols_def)

lemma putColRange_shape:
  assumes "ncols v \<le> ncols m"
  shows "nrows (putColRange m v) = nrows m" and "ncols (putColRange m v) = ncols m"
  using assms by (simp_all add: putColRange_def ncols_def)

lemma rowRange_shape:
  assumes "rowRange m k = Inr v"
  shows "nrows v = k" and "ncols v = ncols m" and "k \<le> nrows m"
  using assms by (auto simp: rowRange_def ncols_def split: if_splits)

lemma rowRange_total: "k \<le> nrows m \<Longrightarrow> \<exists>v. rowRange m k = Inr v"
  by (simp add: rowRange_def)

lemma putRowRange_shape:
  assumes "ncols v = ncols m"
  shows "nrows (putRowRange m v) = nrows m" and "ncols (putRowRange m v) = ncols m"
  using assms by (simp_all add: putRowRange_def ncols_def)

lemma assign_Inr: "assign t v = Inr r \<longleftrightarrow> nrows t = nrows v \<and> ncols t = ncols v \<and> r = v"
  by (auto simp: assign_def)

lemma addAssign_shape:
  assumes "addAssign t v = Inr r"
  shows "nrows r = nrows t" and "ncols r = ncols t"
  using assms by (auto simp: addAssign_def ncols_def split: if_splits)

lemma addAssign_Inr:
  "addAssign t v = Inr r \<longleftrightarrow>
     nrows t = nrows v \<and> ncols t = ncols v
     \<and> r = \<lparr>nrows = nrows t, columns = map2 (\<lambda>tc vc. map2 (+) tc vc) (columns t) (columns v)\<rparr>"
  by (auto simp: addAssign_def)

lemma matmul_columns:
  assumes "matmul a b = Inr p"
  shows "nrows p = nrows a" and "ncols p = ncols b" and "\<forall>c \<in> set (columns p). length c = nrows a"
  using assms by (auto simp: matmul_def ncols_def split: if_splits)

lemma map2_add_zero: "map2 (+) (replicate (length c) (0::real)) c = c"
  by (induction c) auto

lemma addAssign_zero:
  assumes "nrows out = nrows p" and "ncols out = ncols p"
    and "\<forall>c \<in> set (columns p). length c = nrows p"
  shows "addAssign (deepZero out) p = Inr p"
proof -
  have "map2 (\<lambda>tc vc. map2 (+) tc vc) (replicate k (replicate (nrows p) (0::real))) cs = cs"
    if "length cs = k" "\<forall>c \<in> set cs. length c = nrows p" for cs k
    using that
  proof (induction cs arbitrary: k)
    case Nil
    then show ?case by simp
  next
    case (Cons a cs)
    have "map2 (+) (replicate (nrows p) 0) a = a"
      using map2_add_zero [of a] Cons.prems(2) by simp
    then show ?case using Cons by auto
  qed
  then show ?thesis
    using assms by (simp add: addAssign_def deepZero_def ncols_def)
qed


section \<open>The Gaussian evaluator\<close>

text \<open>
  C4. For a column \<open>output\<close> with one entry per sample, \<open>GaussianHelper::apply\<close> returns, and
  entry \<open>k\<close> of the column afterwards is its entry before plus
  \<open>exp(-0.5 * (x'^2 + y'^2)) * detFactor * (1/sqrt(pi))\<close>, where \<open>(x', y')\<close> are the
  normalized coordinates of sample \<open>k\<close>: the evaluator adds to what the column held.
\<close>

theorem GaussianHelper_apply_accumulates:
  assumes "length (xt h) = length output" and "length (yt h) = length output"
  shows "\<exists>out'. GaussianHelper_apply h output = Inr out'
           \<and> length out' = length output
           \<and> (\<forall>k < length output.
                 out' ! k = output ! k
                   + exp (- 0.5 * ((xt h ! k)\<^sup>2 + (yt h ! k)\<^sup>2)) * detFactor h * (1 / sqrt pi))"
  using assms by (simp add: GaussianHelper_apply_def cwise_def NORM_def)

theorem GaussianHelper_apply_accumulates_witness:
  "length (xt \<lparr>detFactor = 2, xt = [0, 1], yt = [0, 3]\<rparr>) = length [5, 7 :: real]
   \<and> length (yt \<lparr>detFactor = 2, xt = [0, 1], yt = [0, 3]\<rparr>) = length [5, 7 :: real]
   \<and> (\<exists>out'. GaussianHelper_apply \<lparr>detFactor = 2, xt = [0, 1], yt = [0, 3]\<rparr> [5, 7] = Inr out'
         \<and> length out' = 2
         \<and> out' ! 0 = 5 + exp (- 0.5 * (0\<^sup>2 + 0\<^sup>2)) * 2 * (1 / sqrt pi)
         \<and> out' ! 1 = 7 + exp (- 0.5 * (1\<^sup>2 + 3\<^sup>2)) * 2 * (1 / sqrt pi))"
proof -
  let ?h = "\<lparr>detFactor = 2, xt = [0, 1], yt = [0, 3]\<rparr>"
  have l: "length (xt ?h) = length [5, 7 :: real]" "length (yt ?h) = length [5, 7 :: real]"
    by simp_all
  from GaussianHelper_apply_accumulates [OF l]
  obtain out' where o: "GaussianHelper_apply ?h [5, 7] = Inr out'" "length out' = 2"
    "\<forall>k < 2. out' ! k = [5, 7] ! k
        + exp (- 0.5 * ((xt ?h ! k)\<^sup>2 + (yt ?h ! k)\<^sup>2)) * detFactor ?h * (1 / sqrt pi)"
    by auto
  have "out' ! 0 = 5 + exp (- 0.5 * (0\<^sup>2 + 0\<^sup>2)) * 2 * (1 / sqrt pi)"
    using o(3) [rule_format, of 0] by simp
  moreover have "out' ! 1 = 7 + exp (- 0.5 * (1\<^sup>2 + 3\<^sup>2)) * 2 * (1 / sqrt pi)"
    using o(3) [rule_format, of 1] by simp
  ultimately show ?thesis using l o(1,2) by blast
qed


section \<open>The Hermite recurrence\<close>

lemma hermiteStep_ok:
  assumes "Suc m < ncols w" and "nrows w = length coord" and "canonUpTo bn coord m w" and "1 \<le> m"
  shows "hermiteStep coord w (Suc m)
           = Inr (w\<lparr>columns := (columns w)[Suc m := map (hermite bn (Suc m)) coord]\<rparr>)"
proof -
  obtain i where m: "m = Suc i" using assms(4) by (cases m) auto
  have c1: "columns w ! m = map (hermite bn m) coord"
    using assms(1,3) by (simp add: canonUpTo_def)
  have c2: "columns w ! i = map (hermite bn i) coord"
    using assms(1,3) m by (simp add: canonUpTo_def)
  have c3: "map (hermite bn (Suc m)) coord
              = map (\<lambda>x. rationalSqrt 2 (Suc m) * x * hermite bn m x
                         - rationalSqrt m (Suc m) * hermite bn i x) coord"
    using m by simp
  show ?thesis
    using assms(1,2) c1 c2 m unfolding c3
    by (simp add: hermiteStep_def col_def cwise_def setCol_def map2_map_right map2_map_both)
qed

lemma hermiteStep_oob:
  assumes "\<not> Suc m < ncols w"
  shows "\<exists>e. hermiteStep coord w (Suc m) = Inl e"
  using assms by (auto simp: hermiteStep_def col_def cwise_def setCol_def andThen_def split: sum.splits)

lemma canonUpTo_update:
  assumes "canonUpTo bn coord m w" and "Suc m < ncols w"
  shows "canonUpTo bn coord (Suc m) (w\<lparr>columns := (columns w)[Suc m := map (hermite bn (Suc m)) coord]\<rparr>)"
  using assms by (auto simp: canonUpTo_def ncols_def nth_list_update le_Suc_eq)

lemma hermite_loop:
  assumes "nrows w = length coord" and "canonUpTo bn coord m w" and "1 \<le> m" and "m < ncols w"
  shows "if n < ncols w
         then (\<exists>w'. foldE (hermiteStep coord) [Suc m..<Suc n] w = Inr w'
                 \<and> nrows w' = nrows w \<and> ncols w' = ncols w
                 \<and> canonUpTo bn coord (max m n) w'
                 \<and> (\<forall>j. max m n < j \<longrightarrow> columns w' ! j = columns w ! j))
         else (\<exists>e. foldE (hermiteStep coord) [Suc m..<Suc n] w = Inl e)"
  using assms
proof (induction "n - m" arbitrary: m w)
  case 0
  then have "[Suc m..<Suc n] = []" and "n < ncols w" and "max m n = m" by auto
  with 0 show ?case by simp
next
  case (Suc d)
  then have mn: "m < n" and d: "d = n - Suc m" by auto
  then have l: "[Suc m..<Suc n] = Suc m # [Suc (Suc m)..<Suc n]"
    by (simp add: upt_conv_Cons)
  show ?case
  proof (cases "Suc m < ncols w")
    case False
    then have "\<not> n < ncols w" using mn by simp
    moreover obtain e where "hermiteStep coord w (Suc m) = Inl e"
      using hermiteStep_oob [OF False] by blast
    ultimately show ?thesis by (simp add: l del: upt_Suc)
  next
    case True
    let ?w = "w\<lparr>columns := (columns w)[Suc m := map (hermite bn (Suc m)) coord]\<rparr>"
    have step: "hermiteStep coord w (Suc m) = Inr ?w"
      using hermiteStep_ok [OF True Suc.prems(1) Suc.prems(2) Suc.prems(3)] .
    have shape: "nrows ?w = nrows w" "ncols ?w = ncols w" by (simp_all add: ncols_def)
    have IH: "if n < ncols ?w
         then (\<exists>w'. foldE (hermiteStep coord) [Suc (Suc m)..<Suc n] ?w = Inr w'
                 \<and> nrows w' = nrows ?w \<and> ncols w' = ncols ?w
                 \<and> canonUpTo bn coord (max (Suc m) n) w'
                 \<and> (\<forall>j. max (Suc m) n < j \<longrightarrow> columns w' ! j = columns ?w ! j))
         else (\<exists>e. foldE (hermiteStep coord) [Suc (Suc m)..<Suc n] ?w = Inl e)"
      using Suc.hyps(1) [OF d, of ?w] Suc.prems True canonUpTo_update [OF Suc.prems(2) True]
      by (simp add: shape)
    have mx: "max (Suc m) n = max m n" using mn by simp
    show ?thesis
    proof (cases "n < ncols w")
      case False
      then show ?thesis using IH by (simp add: l step shape del: upt_Suc)
    next
      case n: True
      then obtain w' where w': "foldE (hermiteStep coord) [Suc (Suc m)..<Suc n] ?w = Inr w'"
        "nrows w' = nrows w" "ncols w' = ncols w" "canonUpTo bn coord (max m n) w'"
        "\<forall>j. max m n < j \<longrightarrow> columns w' ! j = columns ?w ! j"
        using IH by (auto simp: shape mx)
      have "\<forall>j. max m n < j \<longrightarrow> columns w' ! j = columns w ! j"
        using w'(5) mn by (auto simp: nth_list_update)
      then show ?thesis using n w' by (simp add: l step del: upt_Suc)
    qed
  qed
qed

lemma map_hermite_0: "map (hermite bn 0) coord = replicate (length coord) bn"
  by (induction coord) simp_all

lemma hermite_loop_narrow:
  assumes "ncols w \<le> 1"
  shows "if n < 2 then foldE (hermiteStep coord) [2..<Suc n] w = Inr w
         else (\<exists>e. foldE (hermiteStep coord) [2..<Suc n] w = Inl e)"
proof (cases "n < 2")
  case True
  then have "[2..<Suc n] = []" by simp
  then show ?thesis using True by simp
next
  case False
  then have l: "[2..<Suc n] = 2 # [3..<Suc n]" by (simp add: upt_conv_Cons numeral_3_eq_3)
  have "hermiteStep coord w 2 = Inl OutOfBounds"
    using assms by (simp add: hermiteStep_def col_def)
  then show ?thesis using False by (simp add: l del: upt_Suc)
qed

lemma fillHermite1d_cases:
  "if fillOk n ws coord
   then (\<exists>w'. fillHermite1d K n ws coord = Inr w'
           \<and> nrows w' = nrows ws \<and> ncols w' = ncols ws
           \<and> (0 < ncols ws \<longrightarrow> columns w' ! 0 = replicate (nrows ws) (BASIS_NORMALIZATION K))
           \<and> (1 < ncols ws \<longrightarrow> canonUpTo (BASIS_NORMALIZATION K) coord (max 1 n) w')
           \<and> (\<forall>j. max 1 n < j \<longrightarrow> columns w' ! j = columns ws ! j))
   else (\<exists>e. fillHermite1d K n ws coord = Inl e)"
proof -
  let ?bn = "BASIS_NORMALIZATION K"
  let ?w0 = "ws\<lparr>columns := (columns ws)[0 := replicate (nrows ws) ?bn]\<rparr>"
  consider (zero) "ncols ws = 0" | (one) "ncols ws = 1" | (more) "1 < ncols ws" by linarith
  then show ?thesis
  proof cases
    case zero
    then have f: "fillHermite1d K n ws coord = foldE (hermiteStep coord) [2..<Suc n] ws"
      by (simp add: fillHermite1d_def del: upt_Suc)
    have ok: "fillOk n ws coord \<longleftrightarrow> n < 2" using zero by (auto simp: fillOk_def)
    show ?thesis
      using hermite_loop_narrow [of ws n coord] zero unfolding f ok
      by (auto split: if_splits)
  next
    case one
    then have f: "fillHermite1d K n ws coord = foldE (hermiteStep coord) [2..<Suc n] ?w0"
      by (simp add: fillHermite1d_def setCol_def ncols_def del: upt_Suc)
    have ok: "fillOk n ws coord \<longleftrightarrow> n < 2" using one by (auto simp: fillOk_def)
    have n0: "ncols ?w0 \<le> 1" using one by (simp add: ncols_def)
    have c0: "columns ?w0 ! 0 = replicate (nrows ws) ?bn" using one by (simp add: ncols_def)
    have rest: "\<forall>j. max 1 n < j \<longrightarrow> columns ?w0 ! j = columns ws ! j" by simp
    show ?thesis
      using hermite_loop_narrow [OF n0, of n coord] one c0 rest unfolding f ok
      by (auto simp: ncols_def split: if_splits)
  next
    case more
    show ?thesis
    proof (cases "length coord = nrows ws")
      case False
      then have "fillHermite1d K n ws coord = Inl SizeMismatch"
        using more by (auto simp: fillHermite1d_def setCol_def ncols_def col_def cwise_def simp del: upt_Suc)
      moreover have "\<not> fillOk n ws coord" using more False by (simp add: fillOk_def)
      ultimately show ?thesis by simp
    next
      case True
      let ?w1 = "?w0\<lparr>columns := (columns ?w0)[1 := map (hermite ?bn 1) coord]\<rparr>"
      have h1: "map2 (\<lambda>c v. intSqrt 2 * c * v) coord (replicate (nrows ws) ?bn)
                  = map (hermite ?bn 1) coord"
        unfolding True [symmetric] map2_replicate_right by simp
      have s2: "[2..<Suc n] = [Suc 1..<Suc n]" by (simp add: numeral_2_eq_2)
      have f: "fillHermite1d K n ws coord = foldE (hermiteStep coord) [Suc 1..<Suc n] ?w1"
        using more True unfolding fillHermite1d_def s2
        by (auto simp: setCol_def ncols_def col_def cwise_def h1 simp del: upt_Suc)
      have ok: "fillOk n ws coord \<longleftrightarrow> n < ncols ?w1"
        using more True by (auto simp: fillOk_def ncols_def)
      have canon: "canonUpTo ?bn coord 1 ?w1"
        using more True by (auto simp: canonUpTo_def ncols_def le_Suc_eq map_hermite_0)
      have shape: "nrows ?w1 = length coord" "1 < ncols ?w1"
        using more True by (simp_all add: ncols_def)
      have ne: "columns ws \<noteq> []" using more by (auto simp: ncols_def)
      have c0: "columns ?w1 ! 0 = replicate (nrows ws) ?bn"
        using ne by simp
      have other: "\<forall>j. max 1 n < j \<longrightarrow> columns ?w1 ! j = columns ws ! j" by simp
      show ?thesis
      proof (cases "n < ncols ?w1")
        case nlt: True
        then obtain w' where w': "foldE (hermiteStep coord) [Suc 1..<Suc n] ?w1 = Inr w'"
          "nrows w' = nrows ?w1" "ncols w' = ncols ?w1" "canonUpTo ?bn coord (max 1 n) w'"
          "\<forall>j. max 1 n < j \<longrightarrow> columns w' ! j = columns ?w1 ! j"
          using hermite_loop [OF shape(1) canon _ shape(2), of n] by auto
        have "columns w' ! 0 = map (hermite ?bn 0) coord"
          using w'(3,4) shape(2) by (simp add: canonUpTo_def)
        then have "columns w' ! 0 = replicate (nrows ws) ?bn"
          using True by (simp add: map_hermite_0)
        moreover have "\<forall>j. max 1 n < j \<longrightarrow> columns w' ! j = columns ws ! j"
          using w'(5) by auto
        ultimately show ?thesis
          using nlt w'(1-4) more unfolding f ok by (simp add: ncols_def)
      next
        case False
        then show ?thesis
          using hermite_loop [OF shape(1) canon _ shape(2), of n] unfolding f ok by auto
      qed
    qed
  qed
qed

lemma fillHermite1d_Inr:
  assumes "fillHermite1d K n ws coord = Inr w'"
  shows "fillOk n ws coord" and "nrows w' = nrows ws" and "ncols w' = ncols ws"
    and "0 < ncols ws \<Longrightarrow> columns w' ! 0 = replicate (nrows ws) (BASIS_NORMALIZATION K)"
    and "1 < ncols ws \<Longrightarrow> canonUpTo (BASIS_NORMALIZATION K) coord (max 1 n) w'"
    and "max 1 n < j \<Longrightarrow> columns w' ! j = columns ws ! j"
  using assms fillHermite1d_cases [of n ws coord K] by (auto split: if_splits)

lemma fillHermite1d_total:
  assumes "fillOk n ws coord"
  shows "\<exists>w'. fillHermite1d K n ws coord = Inr w'"
  using assms fillHermite1d_cases [of n ws coord K] by auto


text \<open>
  Every column up to the order that is in range holds the Hermite values, when its length
  is the number of coordinates.
\<close>

lemma fillHermite1d_column:
  assumes "fillHermite1d K n ws coord = Inr w'" and "j \<le> n" and "j < ncols w'"
    and "length (columns w' ! j) = length coord"
  shows "columns w' ! j = map (hermite (BASIS_NORMALIZATION K) j) coord"
proof (cases "1 < ncols ws")
  case True
  then show ?thesis
    using fillHermite1d_Inr(3,5) [OF assms(1)] assms(2,3) by (simp add: canonUpTo_def)
next
  case False
  then have "j = 0" using assms(3) fillHermite1d_Inr(3) [OF assms(1)] by simp
  moreover have "0 < ncols ws" using assms(3) fillHermite1d_Inr(3) [OF assms(1)] by simp
  ultimately show ?thesis
    using fillHermite1d_Inr(4) [OF assms(1)] assms(4) by (simp add: map_hermite_0)
qed

lemma fillHermite1d_fitting:
  assumes "n < ncols ws" and "nrows ws = length coord"
  shows "\<exists>w'. fillHermite1d K n ws coord = Inr w'
           \<and> nrows w' = nrows ws \<and> ncols w' = ncols ws
           \<and> (\<forall>j \<le> n. columns w' ! j = map (hermite (BASIS_NORMALIZATION K) j) coord)"
proof -
  have ok: "fillOk n ws coord" using assms by (simp add: fillOk_def)
  then obtain w' where w': "fillHermite1d K n ws coord = Inr w'"
    using fillHermite1d_total by blast
  have shape: "nrows w' = nrows ws" "ncols w' = ncols ws"
    using fillHermite1d_Inr(2,3) [OF w'] by simp_all
  have "columns w' ! j = map (hermite (BASIS_NORMALIZATION K) j) coord" if "j \<le> n" for j
  proof (cases "1 < ncols ws")
    case True
    then show ?thesis
      using fillHermite1d_Inr(5) [OF w'] that assms(1) shape by (simp add: canonUpTo_def)
  next
    case False
    then have "j = 0" using that assms(1) by simp
    then show ?thesis
      using fillHermite1d_Inr(4) [OF w'] assms by (simp add: map_hermite_0)
  qed
  then show ?thesis using w' shape by blast
qed

lemma fillHermite1d_same_shape:
  assumes "fillHermite1d K n ws coord = Inr w"
    and "nrows ws2 = nrows ws" and "ncols ws2 = ncols ws"
  shows "\<exists>w2. fillHermite1d K n ws2 coord = Inr w2
           \<and> nrows w2 = nrows w \<and> ncols w2 = ncols w
           \<and> (\<forall>j \<le> n. col w2 j = col w j)"
proof -
  have "fillOk n ws2 coord" using fillHermite1d_Inr(1) [OF assms(1)] assms(2,3)
    by (simp add: fillOk_def)
  then obtain w2 where w2: "fillHermite1d K n ws2 coord = Inr w2"
    using fillHermite1d_total by blast
  note a = fillHermite1d_Inr [OF assms(1)] and b = fillHermite1d_Inr [OF w2]
  have shape: "nrows w2 = nrows w" "ncols w2 = ncols w"
    using a(2,3) b(2,3) assms(2,3) by simp_all
  have "col w2 j = col w j" if "j \<le> n" for j
  proof (cases "j < ncols w")
    case False
    then show ?thesis using shape by (simp add: col_def)
  next
    case True
    show ?thesis
    proof (cases "1 < ncols ws")
      case True
      then have "columns w ! j = columns w2 ! j"
        using a(3,5) b(3,5) assms(3) that \<open>j < ncols w\<close> by (simp add: canonUpTo_def)
      then show ?thesis using shape by (simp add: col_def)
    next
      case False
      then have "j = 0" "0 < ncols ws" using \<open>j < ncols w\<close> a(3) by simp_all
      then have "columns w ! j = columns w2 ! j"
        using a(4) b(4) assms(2,3) by simp
      then show ?thesis using shape by (simp add: col_def)
    qed
  qed
  then show ?thesis using w2 shape by blast
qed

lemma canon_recurrence:
  assumes "\<forall>j \<le> n. columns w ! j = map (hermite bn j) coord"
  shows "hermiteRecurrence bn n coord w"
  unfolding hermiteRecurrence_def
proof (intro allI impI conjI)
  fix k assume k: "k < length coord"
  show "columns w ! 0 ! k = bn" using assms k by simp
  show "columns w ! 1 ! k = sqrt 2 * coord ! k * columns w ! 0 ! k" if "1 \<le> n"
    using assms k that by (simp add: intSqrt_def)
  fix j assume j: "2 \<le> j \<and> j \<le> n"
  then obtain i where i: "j = Suc (Suc i)" by (metis Suc_le_D numeral_2_eq_2 Suc_le_mono)
  have "columns w ! j = map (hermite bn j) coord"
    "columns w ! (j - 1) = map (hermite bn (j - 1)) coord"
    "columns w ! (j - 2) = map (hermite bn (j - 2)) coord"
    using assms j by (simp_all add: i)
  then show "columns w ! j ! k
               = sqrt (2 / real j) * coord ! k * columns w ! (j - 1) ! k
                   - sqrt (real (j - 1) / real j) * columns w ! (j - 2) ! k"
    using k by (simp add: i rationalSqrt_def)
qed


section \<open>The shapelet evaluator\<close>

lemma accumulateStep_Inr:
  "accumulateStep e xw yw view (idx, px, py) = Inr r \<longleftrightarrow>
     px < ncols xw \<and> py < ncols yw
     \<and> length (columns xw ! px) = length e \<and> length (columns yw ! py) = length e
     \<and> idx < ncols view \<and> length (columns view ! idx) = length e \<and> nrows view = length e
     \<and> r = view\<lparr>columns := (columns view)
                [idx := map2 (+) (columns view ! idx)
                          (map2 (*) (map2 (*) e (columns xw ! px)) (columns yw ! py))]\<rparr>"
  by (auto simp: accumulateStep_def andThen_Inr_iff col_Inr cwise_Inr setCol_Inr)

lemma accumulate_shape:
  "foldE (accumulateStep e xw yw) idxs out = Inr r \<Longrightarrow> nrows r = nrows out \<and> ncols r = ncols out"
proof (induction idxs arbitrary: out)
  case Nil
  then show ?case by simp
next
  case (Cons i idxs)
  obtain idx px py where i: "i = (idx, px, py)" by (cases i) auto
  from Cons.prems obtain v where v: "accumulateStep e xw yw out (idx, px, py) = Inr v"
    "foldE (accumulateStep e xw yw) idxs v = Inr r"
    by (auto simp: i andThen_Inr_iff)
  have "nrows v = nrows out \<and> ncols v = ncols out"
    using v(1) by (auto simp: accumulateStep_Inr ncols_def)
  then show ?case using Cons.IH [OF v(2)] by simp
qed

lemma accumulate_total:
  assumes "\<forall>i \<in> set idxs. fst i < ncols out \<and> fst (snd i) < ncols xw \<and> snd (snd i) < ncols yw
              \<and> length (columns xw ! fst (snd i)) = length e
              \<and> length (columns yw ! snd (snd i)) = length e"
    and "nrows out = length e" and "\<forall>c \<in> set (columns out). length c = length e"
  shows "\<exists>r. foldE (accumulateStep e xw yw) idxs out = Inr r"
  using assms
proof (induction idxs arbitrary: out)
  case Nil
  then show ?case by simp
next
  case (Cons i idxs)
  obtain idx px py where i: "i = (idx, px, py)" by (cases i) auto
  let ?v = "out\<lparr>columns := (columns out)
                [idx := map2 (+) (columns out ! idx)
                          (map2 (*) (map2 (*) e (columns xw ! px)) (columns yw ! py))]\<rparr>"
  have inr: "idx < ncols out" using Cons.prems(1) by (simp add: i)
  then have len: "length (columns out ! idx) = length e"
    using Cons.prems(3) by (simp add: ncols_def)
  have step: "accumulateStep e xw yw out (idx, px, py) = Inr ?v"
    using Cons.prems(1,2) inr len by (simp add: accumulateStep_Inr i)
  have newlen: "length (map2 (+) (columns out ! idx)
                          (map2 (*) (map2 (*) e (columns xw ! px)) (columns yw ! py))) = length e"
    using Cons.prems(1) len by (simp add: i)
  have wf: "\<forall>c \<in> set (columns ?v). length c = length e"
    using Cons.prems(3) newlen by (auto dest!: set_update_subset_insert [THEN subsetD])
  have "\<exists>r. foldE (accumulateStep e xw yw) idxs ?v = Inr r"
    using Cons.IH [of ?v] Cons.prems wf by (simp add: ncols_def)
  then show ?case using step by (simp add: i)
qed

lemma accumulate_det:
  assumes "foldE (accumulateStep e xw yw) idxs out = Inr r"
    and "foldE (accumulateStep e xw2 yw2) idxs out = Inr r2"
    and "\<And>i. i \<in> set idxs \<Longrightarrow>
            fst (snd i) < ncols xw \<Longrightarrow> fst (snd i) < ncols xw2 \<Longrightarrow>
            length (columns xw ! fst (snd i)) = length e \<Longrightarrow>
            length (columns xw2 ! fst (snd i)) = length e \<Longrightarrow>
            columns xw ! fst (snd i) = columns xw2 ! fst (snd i)"
    and "\<And>i. i \<in> set idxs \<Longrightarrow>
            snd (snd i) < ncols yw \<Longrightarrow> snd (snd i) < ncols yw2 \<Longrightarrow>
            length (columns yw ! snd (snd i)) = length e \<Longrightarrow>
            length (columns yw2 ! snd (snd i)) = length e \<Longrightarrow>
            columns yw ! snd (snd i) = columns yw2 ! snd (snd i)"
  shows "r = r2"
  using assms
proof (induction idxs arbitrary: out)
  case Nil
  then show ?case by simp
next
  case (Cons i idxs)
  obtain idx px py where i: "i = (idx, px, py)" by (cases i) auto
  from Cons.prems(1) obtain v where v: "accumulateStep e xw yw out (idx, px, py) = Inr v"
    "foldE (accumulateStep e xw yw) idxs v = Inr r"
    by (auto simp: i andThen_Inr_iff)
  from Cons.prems(2) obtain v2 where v2: "accumulateStep e xw2 yw2 out (idx, px, py) = Inr v2"
    "foldE (accumulateStep e xw2 yw2) idxs v2 = Inr r2"
    by (auto simp: i andThen_Inr_iff)
  note a = v(1) [unfolded accumulateStep_Inr] and b = v2(1) [unfolded accumulateStep_Inr]
  have "columns xw ! px = columns xw2 ! px"
    using Cons.prems(3) [of i] a b by (simp add: i)
  moreover have "columns yw ! py = columns yw2 ! py"
    using Cons.prems(4) [of i] a b by (simp add: i)
  ultimately have "v2 = v" using a b by simp
  then show ?case
    using Cons.IH [OF v(2), of ] v2(2) Cons.prems(3,4) by simp
qed

lemma computeSize_Suc: "computeSize (Suc n) = computeSize n + n + 2"
proof -
  have "(Suc n + 1) * (Suc n + 2) = (n + 1) * (n + 2) + (n + 2) * 2" by simp
  then have "(Suc n + 1) * (Suc n + 2) div 2 = (n + 1) * (n + 2) div 2 + (n + 2)"
    by (simp only: div_mult_self3) simp
  then show ?thesis by (simp add: computeSize_def)
qed

lemma computeSize_mono: "m \<le> n \<Longrightarrow> computeSize m \<le> computeSize n"
  by (induction n) (auto simp: computeSize_Suc le_Suc_eq)

lemma computeSize_gt: "n < computeSize n"
  by (induction n) (simp_all add: computeSize_Suc computeSize_def)

lemma computeOffset_less: "k \<le> m \<Longrightarrow> computeOffset m + k < computeSize m"
proof -
  have "(m + 1) * (m + 2) = m * (m + 1) + (m + 1) * 2" by simp
  then have "(m + 1) * (m + 2) div 2 = m * (m + 1) div 2 + (m + 1)"
    by (simp only: div_mult_self3) simp
  then have "computeSize m = computeOffset m + (m + 1)"
    by (simp add: computeSize_def computeOffset_def)
  then show "k \<le> m \<Longrightarrow> computeOffset m + k < computeSize m" by simp
qed

lemma packedIndices_bounds:
  assumes "i \<in> set (packedIndices n)"
  shows "fst i < computeSize n" and "fst (snd i) \<le> n" and "snd (snd i) \<le> n"
proof -
  from assms have "\<exists>m k. m \<le> n \<and> k \<le> m \<and> i = (computeOffset m + k, m - k, k)"
    by (auto simp: packedIndices_def less_Suc_eq_le simp del: upt_Suc)
  then obtain m k where mk: "m \<le> n" "k \<le> m" "i = (computeOffset m + k, m - k, k)"
    by blast
  have "computeOffset m + k < computeSize m" using mk(2) by (rule computeOffset_less)
  then show "fst i < computeSize n" using computeSize_mono [OF mk(1)] mk(3) by simp
  show "fst (snd i) \<le> n" "snd (snd i) \<le> n" using mk by simp_all
qed

lemma packedIndices_head: "\<exists>rest. packedIndices n = (0, 0, 0) # rest"
proof -
  have "[0..<Suc n] = 0 # [1..<Suc n]" by (simp add: upt_conv_Cons)
  moreover have "[0..<Suc 0] = [0]" by simp
  ultimately show ?thesis by (simp add: packedIndices_def computeOffset_def del: upt_Suc)
qed

lemma ShapeletHelper_apply_Inr:
  "ShapeletHelper_apply K h n eh out = Inr (h', r) \<longleftrightarrow>
     length (xt eh) = length (yt eh) \<and> length (xt eh) = length (expWorkspace h)
     \<and> (\<exists>xw yw. fillHermite1d K n (xWorkspace h) (xt eh) = Inr xw
           \<and> fillHermite1d K n (yWorkspace h) (yt eh) = Inr yw
           \<and> foldE (accumulateStep (envelope eh) xw yw) (packedIndices n) out = Inr r
           \<and> h' = h\<lparr>expWorkspace := envelope eh, xWorkspace := xw, yWorkspace := yw\<rparr>)"
  by (auto simp: ShapeletHelper_apply_def andThen_Inr_iff cwise_Inr envelope_def)


text \<open>
  What the evaluator does when its tables have the shape that its code addresses. Let the
  two tables of a helper have one row per sample and more than \<open>n\<close> columns, and let the
  output have one row per sample and at least the basis size of order \<open>n\<close> columns. Then
  \<open>ShapeletHelper::apply\<close> at order \<open>n\<close> returns, and afterwards the table of the x axis
  holds, for the x coordinates, and the table of the y axis holds, for the y coordinates,
  the values of the three-term recurrence at the degrees 0 to \<open>n\<close>. The constructor of the
  helper gives the tables this shape only when the number of samples is \<open>maxOrder + 1\<close>
  (see the last section).
\<close>

lemma hermite_recurrence:
  assumes "length (xt eh) = length (yt eh)"
    and "length (expWorkspace h) = length (xt eh)"
    and "nrows (xWorkspace h) = length (xt eh)" and "n < ncols (xWorkspace h)"
    and "nrows (yWorkspace h) = length (yt eh)" and "n < ncols (yWorkspace h)"
    and "nrows out = length (xt eh)" and "computeSize n \<le> ncols out"
    and "list_all (\<lambda>c. length c = length (xt eh)) (columns out)"
  shows "\<exists>h' out'. ShapeletHelper_apply K h n eh out = Inr (h', out')
           \<and> hermiteRecurrence (BASIS_NORMALIZATION K) n (xt eh) (xWorkspace h')
           \<and> hermiteRecurrence (BASIS_NORMALIZATION K) n (yt eh) (yWorkspace h')"
proof -
  let ?bn = "BASIS_NORMALIZATION K"
  obtain xw where xw: "fillHermite1d K n (xWorkspace h) (xt eh) = Inr xw"
    "ncols xw = ncols (xWorkspace h)" "\<forall>j \<le> n. columns xw ! j = map (hermite ?bn j) (xt eh)"
    using fillHermite1d_fitting [OF assms(4,3), of K] by blast
  obtain yw where yw: "fillHermite1d K n (yWorkspace h) (yt eh) = Inr yw"
    "ncols yw = ncols (yWorkspace h)" "\<forall>j \<le> n. columns yw ! j = map (hermite ?bn j) (yt eh)"
    using fillHermite1d_fitting [OF assms(6,5), of K] by blast
  have len: "length (envelope eh) = length (xt eh)"
    using assms(1) by (simp add: envelope_def)
  have "\<forall>i \<in> set (packedIndices n). fst i < ncols out \<and> fst (snd i) < ncols xw
          \<and> snd (snd i) < ncols yw
          \<and> length (columns xw ! fst (snd i)) = length (envelope eh)
          \<and> length (columns yw ! snd (snd i)) = length (envelope eh)"
    using packedIndices_bounds assms(1,4,6,8) xw(2,3) yw(2,3) len
    by (metis le_less_trans less_le_trans length_map)
  then obtain r where r: "foldE (accumulateStep (envelope eh) xw yw) (packedIndices n) out = Inr r"
    using accumulate_total [of "packedIndices n" out xw yw "envelope eh"] assms(7,9) len
    by (auto simp: list_all_iff)
  let ?h = "h\<lparr>expWorkspace := envelope eh, xWorkspace := xw, yWorkspace := yw\<rparr>"
  have "ShapeletHelper_apply K h n eh out = Inr (?h, r)"
    using xw(1) yw(1) r assms(1,2) by (simp add: ShapeletHelper_apply_Inr)
  moreover have "hermiteRecurrence ?bn n (xt eh) (xWorkspace ?h)"
    using canon_recurrence [OF xw(3)] by simp
  moreover have "hermiteRecurrence ?bn n (yt eh) (yWorkspace ?h)"
    using canon_recurrence [OF yw(3)] by simp
  ultimately show ?thesis by blast
qed


text \<open>
  An instance: the helper that the constructor makes for three samples and order 2.
\<close>

lemma hermite_recurrence_witness:
  "length (xt \<lparr>detFactor = 1, xt = [0, 1, 2], yt = [0, 0, 1]\<rparr>)
     = length (yt \<lparr>detFactor = 1, xt = [0, 1, 2], yt = [0, 0, 1]\<rparr>)
   \<and> nrows (xWorkspace (ShapeletHelper 3 2)) = 3 \<and> 2 < ncols (xWorkspace (ShapeletHelper 3 2))
   \<and> nrows (yWorkspace (ShapeletHelper 3 2)) = 3 \<and> 2 < ncols (yWorkspace (ShapeletHelper 3 2))
   \<and> computeSize 2 \<le> ncols (allocate 3 6)
   \<and> (\<exists>h' out'.
         ShapeletHelper_apply circles (ShapeletHelper 3 2) 2
           \<lparr>detFactor = 1, xt = [0, 1, 2], yt = [0, 0, 1]\<rparr> (allocate 3 6) = Inr (h', out')
       \<and> hermiteRecurrence (BASIS_NORMALIZATION circles) 2 [0, 1, 2] (xWorkspace h')
       \<and> hermiteRecurrence (BASIS_NORMALIZATION circles) 2 [0, 0, 1] (yWorkspace h'))"
proof -
  let ?eh = "\<lparr>detFactor = 1, xt = [0, 1, 2], yt = [0, 0, 1]\<rparr>"
  let ?h = "ShapeletHelper 3 2"
  have h1: "length (xt ?eh) = length (yt ?eh)" by simp
  have h2: "length (expWorkspace ?h) = length (xt ?eh)"
    by (simp add: ShapeletHelper_def makeView1_def)
  have h3: "nrows (xWorkspace ?h) = length (xt ?eh)" by (simp add: ShapeletHelper_def makeView_def)
  have h4: "2 < ncols (xWorkspace ?h)" by (simp add: ShapeletHelper_def makeView_def ncols_def)
  have h5: "nrows (yWorkspace ?h) = length (yt ?eh)" by (simp add: ShapeletHelper_def makeView_def)
  have h6: "2 < ncols (yWorkspace ?h)" by (simp add: ShapeletHelper_def makeView_def ncols_def)
  have h7: "nrows (allocate 3 6) = length (xt ?eh)" by (simp add: allocate_def)
  have h8: "computeSize 2 \<le> ncols (allocate 3 6)"
    by (simp add: allocate_def ncols_def computeSize_def)
  have h9: "list_all (\<lambda>c. length c = length (xt ?eh)) (columns (allocate 3 6))"
    by (simp add: allocate_def list_all_iff)
  from hermite_recurrence [OF h1 h2 h3 h4 h5 h6 h7 h8 h9, of circles]
  show ?thesis using h3 h4 h5 h6 h8 by simp
qed


text \<open>
  What \<open>apply\<close> leaves in the output does not depend on what the helper's scratch held,
  and the shapes of the scratch arrays stay.
\<close>

lemma clearEllipseHelper_eq_iff:
  "clearEllipseHelper g = clearEllipseHelper h \<longleftrightarrow>
     length (xt g) = length (xt h) \<and> length (yt g) = length (yt h)"
  by (auto simp: clearEllipseHelper_def makeView1_def)

lemma clearShapeletHelper_eq_iff:
  "clearShapeletHelper g = clearShapeletHelper h \<longleftrightarrow>
     maxOrder g = maxOrder h \<and> length (expWorkspace g) = length (expWorkspace h)
     \<and> nrows (xWorkspace g) = nrows (xWorkspace h) \<and> ncols (xWorkspace g) = ncols (xWorkspace h)
     \<and> nrows (yWorkspace g) = nrows (yWorkspace h) \<and> ncols (yWorkspace g) = ncols (yWorkspace h)"
proof
  assume eq: "clearShapeletHelper g = clearShapeletHelper h"
  have "maxOrder (clearShapeletHelper g) = maxOrder (clearShapeletHelper h)"
    "expWorkspace (clearShapeletHelper g) = expWorkspace (clearShapeletHelper h)"
    "xWorkspace (clearShapeletHelper g) = xWorkspace (clearShapeletHelper h)"
    "yWorkspace (clearShapeletHelper g) = yWorkspace (clearShapeletHelper h)"
    by (simp_all add: eq)
  then show "maxOrder g = maxOrder h \<and> length (expWorkspace g) = length (expWorkspace h)
     \<and> nrows (xWorkspace g) = nrows (xWorkspace h) \<and> ncols (xWorkspace g) = ncols (xWorkspace h)
     \<and> nrows (yWorkspace g) = nrows (yWorkspace h) \<and> ncols (yWorkspace g) = ncols (yWorkspace h)"
    by (simp add: clearShapeletHelper_def makeView1_def deepZero_eq_iff)
next
  assume "maxOrder g = maxOrder h \<and> length (expWorkspace g) = length (expWorkspace h)
     \<and> nrows (xWorkspace g) = nrows (xWorkspace h) \<and> ncols (xWorkspace g) = ncols (xWorkspace h)
     \<and> nrows (yWorkspace g) = nrows (yWorkspace h) \<and> ncols (yWorkspace g) = ncols (yWorkspace h)"
  then have "deepZero (xWorkspace g) = deepZero (xWorkspace h)"
    "deepZero (yWorkspace g) = deepZero (yWorkspace h)"
    "maxOrder g = maxOrder h" "length (expWorkspace g) = length (expWorkspace h)"
    by (simp_all add: deepZero_eq_iff)
  then show "clearShapeletHelper g = clearShapeletHelper h"
    by (cases g, cases h) (simp add: clearShapeletHelper_def)
qed

lemma readEllipse_Inr:
  "readEllipse K h x y e = Inr r \<longleftrightarrow>
     length x = length y \<and> length (xt h) = length x \<and> length (yt h) = length x
     \<and> r = \<lparr>detFactor = computeDeterminant (getGridTransform K e),
            xt = map2 (\<lambda>a b. tXX (getGridTransform K e) * a + tXY (getGridTransform K e) * b
                               + tX (getGridTransform K e)) x y,
            yt = map2 (\<lambda>a b. tYX (getGridTransform K e) * a + tYY (getGridTransform K e) * b
                               + tY (getGridTransform K e)) x y\<rparr>"
  by (auto simp: readEllipse_def Let_def andThen_Inr_iff cwise_Inr)

lemma readEllipse_lengths:
  assumes "readEllipse K h x y e = Inr r"
  shows "clearEllipseHelper r = clearEllipseHelper h"
  using assms by (auto simp: readEllipse_Inr clearEllipseHelper_eq_iff)

lemma readEllipse_transfer:
  assumes "readEllipse K h x y e = Inr r" and "clearEllipseHelper g = clearEllipseHelper h"
  shows "readEllipse K g x y e = Inr r"
  using assms by (auto simp: readEllipse_Inr clearEllipseHelper_eq_iff)

lemma scale_lengths: "clearEllipseHelper (scale eh f) = clearEllipseHelper eh"
  by (simp add: scale_def clearEllipseHelper_eq_iff)

lemma scale_scale:
  assumes "r1 \<noteq> 0"
  shows "scale (scale eh (r1 / 1)) (r2 / r1) = scale eh (r2 / 1)"
  using assms by (simp add: scale_def)

lemma ShapeletHelper_apply_preserves:
  assumes "ShapeletHelper_apply K h n eh out = Inr (h', r)"
  shows "clearShapeletHelper h' = clearShapeletHelper h"
    and "nrows r = nrows out" and "ncols r = ncols out"
proof -
  from assms obtain xw yw where s:
    "length (xt eh) = length (yt eh)" "length (xt eh) = length (expWorkspace h)"
    "fillHermite1d K n (xWorkspace h) (xt eh) = Inr xw"
    "fillHermite1d K n (yWorkspace h) (yt eh) = Inr yw"
    "foldE (accumulateStep (envelope eh) xw yw) (packedIndices n) out = Inr r"
    "h' = h\<lparr>expWorkspace := envelope eh, xWorkspace := xw, yWorkspace := yw\<rparr>"
    unfolding ShapeletHelper_apply_Inr by blast
  show "clearShapeletHelper h' = clearShapeletHelper h"
    using s(1,2,6) fillHermite1d_Inr(2,3) [OF s(3)] fillHermite1d_Inr(2,3) [OF s(4)]
    by (simp add: clearShapeletHelper_eq_iff envelope_def)
  show "nrows r = nrows out" "ncols r = ncols out"
    using accumulate_shape [OF s(5)] by simp_all
qed

lemma ShapeletHelper_apply_transfer:
  assumes "ShapeletHelper_apply K h n eh out = Inr (h', r)"
    and "clearShapeletHelper g = clearShapeletHelper h"
  shows "\<exists>g'. ShapeletHelper_apply K g n eh out = Inr (g', r)"
proof -
  from assms(1) obtain xw yw where s:
    "length (xt eh) = length (yt eh)" "length (xt eh) = length (expWorkspace h)"
    "fillHermite1d K n (xWorkspace h) (xt eh) = Inr xw"
    "fillHermite1d K n (yWorkspace h) (yt eh) = Inr yw"
    "foldE (accumulateStep (envelope eh) xw yw) (packedIndices n) out = Inr r"
    unfolding ShapeletHelper_apply_Inr by blast
  note g = assms(2) [unfolded clearShapeletHelper_eq_iff]
  obtain xw2 where xw2: "fillHermite1d K n (xWorkspace g) (xt eh) = Inr xw2"
    "\<forall>j \<le> n. col xw2 j = col xw j"
    using fillHermite1d_same_shape [OF s(3), of "xWorkspace g"] g by auto
  obtain yw2 where yw2: "fillHermite1d K n (yWorkspace g) (yt eh) = Inr yw2"
    "\<forall>j \<le> n. col yw2 j = col yw j"
    using fillHermite1d_same_shape [OF s(4), of "yWorkspace g"] g by auto
  have "foldE (accumulateStep (envelope eh) xw2 yw2) (packedIndices n) out
          = foldE (accumulateStep (envelope eh) xw yw) (packedIndices n) out"
  proof (rule foldE_cong)
    fix i v assume "i \<in> set (packedIndices n)"
    then have "col xw2 (fst (snd i)) = col xw (fst (snd i))"
      "col yw2 (snd (snd i)) = col yw (snd (snd i))"
      using packedIndices_bounds(2,3) xw2(2) yw2(2) by simp_all
    then show "accumulateStep (envelope eh) xw2 yw2 v i = accumulateStep (envelope eh) xw yw v i"
      by (cases i) (simp add: accumulateStep_def)
  qed
  then show ?thesis
    using s(1,2,5) xw2(1) yw2(1) g by (simp add: ShapeletHelper_apply_Inr)
qed

lemma ShapeletHelper_apply_deterministic:
  assumes "ShapeletHelper_apply K h n eh out = Inr (h', r)"
    and "ShapeletHelper_apply K g n eh out = Inr (g', r2)"
  shows "r = r2"
proof -
  from assms(1) obtain xw yw where s:
    "length (xt eh) = length (yt eh)"
    "fillHermite1d K n (xWorkspace h) (xt eh) = Inr xw"
    "fillHermite1d K n (yWorkspace h) (yt eh) = Inr yw"
    "foldE (accumulateStep (envelope eh) xw yw) (packedIndices n) out = Inr r"
    unfolding ShapeletHelper_apply_Inr by blast
  from assms(2) obtain xw2 yw2 where t:
    "fillHermite1d K n (xWorkspace g) (xt eh) = Inr xw2"
    "fillHermite1d K n (yWorkspace g) (yt eh) = Inr yw2"
    "foldE (accumulateStep (envelope eh) xw2 yw2) (packedIndices n) out = Inr r2"
    unfolding ShapeletHelper_apply_Inr by blast
  have len: "length (envelope eh) = length (xt eh)" "length (envelope eh) = length (yt eh)"
    using s(1) by (simp_all add: envelope_def)
  show ?thesis
  proof (rule accumulate_det [OF s(4) t(3)])
    fix i assume i: "i \<in> set (packedIndices n)"
    assume "fst (snd i) < ncols xw" "fst (snd i) < ncols xw2"
      "length (columns xw ! fst (snd i)) = length (envelope eh)"
      "length (columns xw2 ! fst (snd i)) = length (envelope eh)"
    then show "columns xw ! fst (snd i) = columns xw2 ! fst (snd i)"
      using fillHermite1d_column [OF s(2) packedIndices_bounds(2) [OF i]]
        fillHermite1d_column [OF t(1) packedIndices_bounds(2) [OF i]] len by simp
  next
    fix i assume i: "i \<in> set (packedIndices n)"
    assume "snd (snd i) < ncols yw" "snd (snd i) < ncols yw2"
      "length (columns yw ! snd (snd i)) = length (envelope eh)"
      "length (columns yw2 ! snd (snd i)) = length (envelope eh)"
    then show "columns yw ! snd (snd i) = columns yw2 ! snd (snd i)"
      using fillHermite1d_column [OF s(3) packedIndices_bounds(3) [OF i]]
        fillHermite1d_column [OF t(2) packedIndices_bounds(3) [OF i]] len by simp
  qed
qed

lemma ShapeletHelper_apply_rows:
  assumes "ShapeletHelper_apply K h n eh out = Inr (h', r)"
  shows "nrows out = length (xt eh)"
proof -
  from assms obtain xw yw where s: "length (xt eh) = length (yt eh)"
    "foldE (accumulateStep (envelope eh) xw yw) (packedIndices n) out = Inr r"
    unfolding ShapeletHelper_apply_Inr by blast
  obtain rest where "packedIndices n = (0, 0, 0) # rest" using packedIndices_head by blast
  then obtain v where "accumulateStep (envelope eh) xw yw out (0, 0, 0) = Inr v"
    using s(2) by (auto simp: andThen_Inr_iff)
  then show ?thesis using s(1) by (simp add: accumulateStep_Inr envelope_def)
qed


section \<open>The builders, one by one\<close>

subsection \<open>Gaussian\<close>

lemma Gaussian_persistent_iff:
  "persistentState (Gaussian c) = persistentState (Gaussian b) \<longleftrightarrow>
     gBase c = gBase b
     \<and> clearEllipseHelper (gEllipseHelper c) = clearEllipseHelper (gEllipseHelper b)"
  by (cases c, cases b) (auto simp: persistentState_def)

lemma Gaussian_apply_Inr:
  "GaussianMatrixBuilder_apply K b output ellipse = Inr (b', r) \<longleftrightarrow>
     (\<exists>eh c c'. readEllipse K (gEllipseHelper b) (mbX (gBase b)) (mbY (gBase b)) ellipse = Inr eh
        \<and> col (deepZero output) 0 = Inr c \<and> GaussianHelper_apply eh c = Inr c'
        \<and> setCol (deepZero output) 0 c' = Inr r \<and> b' = b\<lparr>gEllipseHelper := eh\<rparr>)"
  by (auto simp: GaussianMatrixBuilder_apply_def Let_def andThen_Inr_iff)

lemma Gaussian_preserves:
  assumes "GaussianMatrixBuilder_apply K b output ellipse = Inr (b', r)"
  shows "persistentState (Gaussian b') = persistentState (Gaussian b)"
  using assms readEllipse_lengths
  by (auto simp: Gaussian_apply_Inr Gaussian_persistent_iff)

lemma Gaussian_transfer:
  assumes "GaussianMatrixBuilder_apply K b output ellipse = Inr (b', r)"
    and "persistentState (Gaussian c) = persistentState (Gaussian b)"
    and "nrows output2 = nrows output" and "ncols output2 = ncols output"
  shows "\<exists>c'. GaussianMatrixBuilder_apply K c output2 ellipse = Inr (c', r)"
proof -
  have z: "deepZero output2 = deepZero output" using assms(3,4) by (simp add: deepZero_eq_iff)
  show ?thesis
    using assms(1,2) readEllipse_transfer
    unfolding Gaussian_apply_Inr Gaussian_persistent_iff z by fastforce
qed


subsection \<open>Convolved Gaussian\<close>

lemma ConvolvedGaussian_persistent_iff:
  "persistentState (ConvolvedGaussian c) = persistentState (ConvolvedGaussian b) \<longleftrightarrow>
     cgBase c = cgBase b \<and> cgPsfEllipse c = cgPsfEllipse b
     \<and> cgPsfCoefficient c = cgPsfCoefficient b
     \<and> clearEllipseHelper (cgEllipseHelper c) = clearEllipseHelper (cgEllipseHelper b)"
  by (cases c, cases b) (auto simp: persistentState_def)

lemma ConvolvedGaussian_apply_Inr:
  "ConvolvedGaussianMatrixBuilder_apply K b output ellipse = Inr (b', r) \<longleftrightarrow>
     (\<exists>eh c c' out.
        readEllipse K (cgEllipseHelper b) (mbX (cgBase b)) (mbY (cgBase b))
          (convolve K ellipse (cgPsfEllipse b)) = Inr eh
        \<and> col (deepZero output) 0 = Inr c \<and> GaussianHelper_apply eh c = Inr c'
        \<and> setCol (deepZero output) 0 c' = Inr out
        \<and> r = scaleAssign out (cgPsfCoefficient b / FLUX_FACTOR K)
        \<and> b' = b\<lparr>cgEllipseHelper := eh\<rparr>)"
  by (auto simp: ConvolvedGaussianMatrixBuilder_apply_def Let_def andThen_Inr_iff)

lemma ConvolvedGaussian_preserves:
  assumes "ConvolvedGaussianMatrixBuilder_apply K b output ellipse = Inr (b', r)"
  shows "persistentState (ConvolvedGaussian b') = persistentState (ConvolvedGaussian b)"
  using assms readEllipse_lengths
  by (auto simp: ConvolvedGaussian_apply_Inr ConvolvedGaussian_persistent_iff)

lemma ConvolvedGaussian_transfer:
  assumes "ConvolvedGaussianMatrixBuilder_apply K b output ellipse = Inr (b', r)"
    and "persistentState (ConvolvedGaussian c) = persistentState (ConvolvedGaussian b)"
    and "nrows output2 = nrows output" and "ncols output2 = ncols output"
  shows "\<exists>c'. ConvolvedGaussianMatrixBuilder_apply K c output2 ellipse = Inr (c', r)"
proof -
  have z: "deepZero output2 = deepZero output" using assms(3,4) by (simp add: deepZero_eq_iff)
  show ?thesis
    using assms(1,2) readEllipse_transfer
    unfolding ConvolvedGaussian_apply_Inr ConvolvedGaussian_persistent_iff z by fastforce
qed


subsection \<open>Shapelet\<close>

lemma Shapelet_persistent_iff:
  "persistentState (Shapelet c) = persistentState (Shapelet b) \<longleftrightarrow>
     sBase c = sBase b \<and> sOrder c = sOrder b
     \<and> clearEllipseHelper (sEllipseHelper c) = clearEllipseHelper (sEllipseHelper b)
     \<and> clearShapeletHelper (sShapeletHelper c) = clearShapeletHelper (sShapeletHelper b)"
  by (cases c, cases b) (auto simp: persistentState_def)

lemma Shapelet_apply_Inr:
  "ShapeletMatrixBuilder_apply K b output ellipse = Inr (b', r) \<longleftrightarrow>
     (\<exists>eh sh. readEllipse K (sEllipseHelper b) (mbX (sBase b)) (mbY (sBase b)) ellipse = Inr eh
        \<and> ShapeletHelper_apply K (sShapeletHelper b) (sOrder b) eh (deepZero output) = Inr (sh, r)
        \<and> b' = b\<lparr>sEllipseHelper := eh, sShapeletHelper := sh\<rparr>)"
  by (auto simp: ShapeletMatrixBuilder_apply_def Let_def andThen_Inr_iff)

lemma Shapelet_preserves:
  assumes "ShapeletMatrixBuilder_apply K b output ellipse = Inr (b', r)"
  shows "persistentState (Shapelet b') = persistentState (Shapelet b)"
  using assms readEllipse_lengths ShapeletHelper_apply_preserves(1)
  by (auto simp: Shapelet_apply_Inr Shapelet_persistent_iff)

lemma Shapelet_transfer:
  assumes "ShapeletMatrixBuilder_apply K b output ellipse = Inr (b', r)"
    and "persistentState (Shapelet c) = persistentState (Shapelet b)"
    and "nrows output2 = nrows output" and "ncols output2 = ncols output"
  shows "\<exists>c'. ShapeletMatrixBuilder_apply K c output2 ellipse = Inr (c', r)"
proof -
  have z: "deepZero output2 = deepZero output" using assms(3,4) by (simp add: deepZero_eq_iff)
  from assms(1) obtain eh sh where s:
    "readEllipse K (sEllipseHelper b) (mbX (sBase b)) (mbY (sBase b)) ellipse = Inr eh"
    "ShapeletHelper_apply K (sShapeletHelper b) (sOrder b) eh (deepZero output) = Inr (sh, r)"
    unfolding Shapelet_apply_Inr by blast
  note p = assms(2) [unfolded Shapelet_persistent_iff]
  have "readEllipse K (sEllipseHelper c) (mbX (sBase c)) (mbY (sBase c)) ellipse = Inr eh"
    using readEllipse_transfer [OF s(1)] p by simp
  moreover obtain g' where
    "ShapeletHelper_apply K (sShapeletHelper c) (sOrder c) eh (deepZero output2) = Inr (g', r)"
    using ShapeletHelper_apply_transfer [OF s(2), of "sShapeletHelper c"] p z by auto
  ultimately show ?thesis unfolding Shapelet_apply_Inr by blast
qed


subsection \<open>Convolved shapelet\<close>

lemma ConvolvedShapelet_persistent_iff:
  "persistentState (ConvolvedShapelet c) = persistentState (ConvolvedShapelet b) \<longleftrightarrow>
     csBase c = csBase b \<and> csConvolution c = csConvolution b
     \<and> deepZero (csConvolutionWorkspace c) = deepZero (csConvolutionWorkspace b)
     \<and> clearEllipseHelper (csEllipseHelper c) = clearEllipseHelper (csEllipseHelper b)
     \<and> clearShapeletHelper (csShapeletHelper c) = clearShapeletHelper (csShapeletHelper b)"
  by (cases c, cases b) (auto simp: persistentState_def)

lemma ConvolvedShapelet_apply_Inr:
  "ConvolvedShapeletMatrixBuilder_apply K b output ellipse = Inr (b', r) \<longleftrightarrow>
     (\<exists>eh sh ws p.
        readEllipse K (csEllipseHelper b) (mbX (csBase b)) (mbY (csBase b))
          (fst (evaluate K (csConvolution b) ellipse)) = Inr eh
        \<and> ShapeletHelper_apply K (csShapeletHelper b) (getColOrder (csConvolution b)) eh
            (deepZero (csConvolutionWorkspace b)) = Inr (sh, ws)
        \<and> matmul ws (snd (evaluate K (csConvolution b) ellipse)) = Inr p
        \<and> assign output p = Inr r
        \<and> b' = b\<lparr>csConvolutionWorkspace := ws, csEllipseHelper := eh, csShapeletHelper := sh\<rparr>)"
  by (auto simp: ConvolvedShapeletMatrixBuilder_apply_def Let_def andThen_Inr_iff
      split: prod.splits)

lemma ConvolvedShapelet_preserves:
  assumes "ConvolvedShapeletMatrixBuilder_apply K b output ellipse = Inr (b', r)"
  shows "persistentState (ConvolvedShapelet b') = persistentState (ConvolvedShapelet b)"
proof -
  from assms obtain eh sh ws where s:
    "readEllipse K (csEllipseHelper b) (mbX (csBase b)) (mbY (csBase b))
          (fst (evaluate K (csConvolution b) ellipse)) = Inr eh"
    "ShapeletHelper_apply K (csShapeletHelper b) (getColOrder (csConvolution b)) eh
            (deepZero (csConvolutionWorkspace b)) = Inr (sh, ws)"
    "b' = b\<lparr>csConvolutionWorkspace := ws, csEllipseHelper := eh, csShapeletHelper := sh\<rparr>"
    unfolding ConvolvedShapelet_apply_Inr by blast
  show ?thesis
    using readEllipse_lengths [OF s(1)] ShapeletHelper_apply_preserves [OF s(2)] s(3)
    by (simp add: ConvolvedShapelet_persistent_iff deepZero_eq_iff)
qed

lemma ConvolvedShapelet_transfer:
  assumes "ConvolvedShapeletMatrixBuilder_apply K b output ellipse = Inr (b', r)"
    and "persistentState (ConvolvedShapelet c) = persistentState (ConvolvedShapelet b)"
    and "nrows output2 = nrows output" and "ncols output2 = ncols output"
  shows "\<exists>c'. ConvolvedShapeletMatrixBuilder_apply K c output2 ellipse = Inr (c', r)"
proof -
  from assms(1) obtain eh sh ws p where s:
    "readEllipse K (csEllipseHelper b) (mbX (csBase b)) (mbY (csBase b))
          (fst (evaluate K (csConvolution b) ellipse)) = Inr eh"
    "ShapeletHelper_apply K (csShapeletHelper b) (getColOrder (csConvolution b)) eh
            (deepZero (csConvolutionWorkspace b)) = Inr (sh, ws)"
    "matmul ws (snd (evaluate K (csConvolution b) ellipse)) = Inr p"
    "assign output p = Inr r"
    unfolding ConvolvedShapelet_apply_Inr by blast
  note p = assms(2) [unfolded ConvolvedShapelet_persistent_iff]
  have "readEllipse K (csEllipseHelper c) (mbX (csBase c)) (mbY (csBase c))
          (fst (evaluate K (csConvolution c) ellipse)) = Inr eh"
    using readEllipse_transfer [OF s(1)] p by simp
  moreover obtain g' where
    "ShapeletHelper_apply K (csShapeletHelper c) (getColOrder (csConvolution c)) eh
       (deepZero (csConvolutionWorkspace c)) = Inr (g', ws)"
    using ShapeletHelper_apply_transfer [OF s(2), of "csShapeletHelper c"] p by auto
  moreover have "matmul ws (snd (evaluate K (csConvolution c) ellipse)) = Inr p"
    using s(3) p by simp
  moreover have "assign output2 p = Inr r"
    using s(4) assms(3,4) by (auto simp: assign_def split: if_splits)
  ultimately show ?thesis unfolding ConvolvedShapelet_apply_Inr by blast
qed


subsection \<open>Multi-shapelet\<close>

lemma multiStep_Inr:
  "multiStep K (eh, sh, ws, out, lr) c = Inr s' \<longleftrightarrow>
     (\<exists>view sh1 view1 p out1.
        colRange ws (computeSize (bcOrder c)) = Inr view
        \<and> ShapeletHelper_apply K sh (bcOrder c) (scale eh (bcRadius c / lr)) (deepZero view)
            = Inr (sh1, view1)
        \<and> matmul view1 (bcMatrix c) = Inr p
        \<and> addAssign out p = Inr out1
        \<and> s' = (scale eh (bcRadius c / lr), sh1, putColRange ws view1, out1, bcRadius c))"
  by (auto simp: multiStep_def Let_def andThen_Inr_iff)

lemma multiStep_preserves:
  assumes "multiStep K s c = Inr s'"
  shows "multiShape s s'"
proof -
  obtain eh sh ws out lr where s: "s = (eh, sh, ws, out, lr)" by (cases s) auto
  from assms obtain view sh1 view1 p out1 where st:
    "colRange ws (computeSize (bcOrder c)) = Inr view"
    "ShapeletHelper_apply K sh (bcOrder c) (scale eh (bcRadius c / lr)) (deepZero view)
            = Inr (sh1, view1)"
    "s' = (scale eh (bcRadius c / lr), sh1, putColRange ws view1, out1, bcRadius c)"
    unfolding s multiStep_Inr by blast
  have "ncols view1 \<le> ncols ws"
    using ShapeletHelper_apply_preserves(3) [OF st(2)] colRange_shape(2,3) [OF st(1)] by simp
  then have "deepZero (putColRange ws view1) = deepZero ws"
    using putColRange_shape by (simp add: deepZero_eq_iff)
  then show ?thesis
    using ShapeletHelper_apply_preserves(1) [OF st(2)]
    by (simp add: s st(3) multiShape_def scale_lengths)
qed

lemma multiStep_transfer:
  assumes "multiStep K s c = Inr s'" and "multiSame s t"
  shows "\<exists>t'. multiStep K t c = Inr t' \<and> multiSame s' t'"
proof -
  obtain eh sh ws out lr where s: "s = (eh, sh, ws, out, lr)" by (cases s) auto
  obtain sh2 ws2 where t: "t = (eh, sh2, ws2, out, lr)"
    and rel: "clearShapeletHelper sh2 = clearShapeletHelper sh" "deepZero ws2 = deepZero ws"
    using assms(2) by (cases t) (auto simp: s multiSame_def)
  from assms(1) obtain view sh1 view1 p out1 where st:
    "colRange ws (computeSize (bcOrder c)) = Inr view"
    "ShapeletHelper_apply K sh (bcOrder c) (scale eh (bcRadius c / lr)) (deepZero view)
            = Inr (sh1, view1)"
    "matmul view1 (bcMatrix c) = Inr p"
    "addAssign out p = Inr out1"
    "s' = (scale eh (bcRadius c / lr), sh1, putColRange ws view1, out1, bcRadius c)"
    unfolding s multiStep_Inr by blast
  note shp = rel(2) [unfolded deepZero_eq_iff]
  obtain view2 where v2: "colRange ws2 (computeSize (bcOrder c)) = Inr view2"
    using colRange_shape(3) [OF st(1)] shp by (auto simp: colRange_def)
  have z: "deepZero view2 = deepZero view"
    using colRange_shape(1,2) [OF st(1)] colRange_shape(1,2) [OF v2] shp
    by (simp add: deepZero_eq_iff)
  obtain g' where g': "ShapeletHelper_apply K sh2 (bcOrder c) (scale eh (bcRadius c / lr))
      (deepZero view2) = Inr (g', view1)"
    using ShapeletHelper_apply_transfer [OF st(2) rel(1)] z by auto
  let ?t' = "(scale eh (bcRadius c / lr), g', putColRange ws2 view1, out1, bcRadius c)"
  have step: "multiStep K t c = Inr ?t'"
    unfolding t multiStep_Inr using v2 g' st(3,4) by blast
  have "ncols view1 \<le> ncols ws"
    using ShapeletHelper_apply_preserves(3) [OF st(2)] colRange_shape(2,3) [OF st(1)] by simp
  then have "deepZero (putColRange ws2 view1) = deepZero (putColRange ws view1)"
    using putColRange_shape [of view1 ws] putColRange_shape [of view1 ws2] shp
    by (simp add: deepZero_eq_iff)
  moreover have "clearShapeletHelper g' = clearShapeletHelper sh1"
    using ShapeletHelper_apply_preserves(1) [OF st(2)] ShapeletHelper_apply_preserves(1) [OF g'] rel(1)
    by simp
  ultimately have "multiSame s' ?t'" by (simp add: st(5) multiSame_def)
  then show ?thesis using step by blast
qed

lemma multiShape_refl: "multiShape s s"
  by (cases s) (simp add: multiShape_def)

lemma multiShape_trans: "multiShape s t \<Longrightarrow> multiShape t u \<Longrightarrow> multiShape s u"
  by (cases s, cases t, cases u) (simp add: multiShape_def)

lemma multiLoop_preserves:
  "foldE (multiStep K) cs s = Inr s' \<Longrightarrow> multiShape s s'"
proof (induction cs arbitrary: s)
  case Nil
  then show ?case by (simp add: multiShape_refl)
next
  case (Cons c cs)
  then obtain m where m: "multiStep K s c = Inr m" "foldE (multiStep K) cs m = Inr s'"
    by (auto simp: andThen_Inr_iff)
  show ?case using multiShape_trans [OF multiStep_preserves [OF m(1)] Cons.IH [OF m(2)]] .
qed

lemma multiLoop_transfer:
  "foldE (multiStep K) cs s = Inr s' \<Longrightarrow> multiSame s t \<Longrightarrow>
     \<exists>t'. foldE (multiStep K) cs t = Inr t' \<and> multiSame s' t'"
proof (induction cs arbitrary: s t)
  case Nil
  then show ?case by simp
next
  case (Cons c cs)
  then obtain m where m: "multiStep K s c = Inr m" "foldE (multiStep K) cs m = Inr s'"
    by (auto simp: andThen_Inr_iff)
  obtain m2 where m2: "multiStep K t c = Inr m2" "multiSame m m2"
    using multiStep_transfer [OF m(1) Cons.prems(2)] by blast
  show ?case using Cons.IH [OF m(2) m2(2)] m2(1) by simp
qed

lemma MultiShapelet0_persistent_iff:
  "persistentState (MultiShapelet0 c) = persistentState (MultiShapelet0 b) \<longleftrightarrow>
     mBase c = mBase b \<and> mBasis c = mBasis b
     \<and> clearEllipseHelper (mEllipseHelper c) = clearEllipseHelper (mEllipseHelper b)
     \<and> clearShapeletHelper (mShapeletHelper c) = clearShapeletHelper (mShapeletHelper b)
     \<and> deepZero (mBasisWorkspace c) = deepZero (mBasisWorkspace b)"
  by (cases c, cases b) (auto simp: persistentState_def)

lemma MultiShapelet0_apply_Inr:
  "MultiShapeletMatrixBuilder0_apply K b output ellipse = Inr (b', r) \<longleftrightarrow>
     (\<exists>eh eh1 sh1 ws1 lr.
        readEllipse K (mEllipseHelper b) (mbX (mBase b)) (mbY (mBase b)) ellipse = Inr eh
        \<and> foldE (multiStep K) (basisComponents (mBasis b))
            (eh, mShapeletHelper b, mBasisWorkspace b, deepZero output, 1)
            = Inr (eh1, sh1, ws1, r, lr)
        \<and> b' = b\<lparr>mEllipseHelper := eh1, mShapeletHelper := sh1, mBasisWorkspace := ws1\<rparr>)"
  by (auto simp: MultiShapeletMatrixBuilder0_apply_def Let_def andThen_Inr_iff)

lemma MultiShapelet0_preserves:
  assumes "MultiShapeletMatrixBuilder0_apply K b output ellipse = Inr (b', r)"
  shows "persistentState (MultiShapelet0 b') = persistentState (MultiShapelet0 b)"
proof -
  from assms obtain eh eh1 sh1 ws1 lr where s:
    "readEllipse K (mEllipseHelper b) (mbX (mBase b)) (mbY (mBase b)) ellipse = Inr eh"
    "foldE (multiStep K) (basisComponents (mBasis b))
            (eh, mShapeletHelper b, mBasisWorkspace b, deepZero output, 1)
            = Inr (eh1, sh1, ws1, r, lr)"
    "b' = b\<lparr>mEllipseHelper := eh1, mShapeletHelper := sh1, mBasisWorkspace := ws1\<rparr>"
    unfolding MultiShapelet0_apply_Inr by blast
  show ?thesis
    using multiLoop_preserves [OF s(2)] readEllipse_lengths [OF s(1)] s(3)
    by (simp add: MultiShapelet0_persistent_iff multiShape_def)
qed

lemma MultiShapelet0_transfer:
  assumes "MultiShapeletMatrixBuilder0_apply K b output ellipse = Inr (b', r)"
    and "persistentState (MultiShapelet0 c) = persistentState (MultiShapelet0 b)"
    and "nrows output2 = nrows output" and "ncols output2 = ncols output"
  shows "\<exists>c'. MultiShapeletMatrixBuilder0_apply K c output2 ellipse = Inr (c', r)"
proof -
  have z: "deepZero output2 = deepZero output" using assms(3,4) by (simp add: deepZero_eq_iff)
  from assms(1) obtain eh eh1 sh1 ws1 lr where s:
    "readEllipse K (mEllipseHelper b) (mbX (mBase b)) (mbY (mBase b)) ellipse = Inr eh"
    "foldE (multiStep K) (basisComponents (mBasis b))
            (eh, mShapeletHelper b, mBasisWorkspace b, deepZero output, 1)
            = Inr (eh1, sh1, ws1, r, lr)"
    unfolding MultiShapelet0_apply_Inr by blast
  note p = assms(2) [unfolded MultiShapelet0_persistent_iff]
  have r: "readEllipse K (mEllipseHelper c) (mbX (mBase c)) (mbY (mBase c)) ellipse = Inr eh"
    using readEllipse_transfer [OF s(1)] p by simp
  have "multiSame (eh, mShapeletHelper b, mBasisWorkspace b, deepZero output, 1)
          (eh, mShapeletHelper c, mBasisWorkspace c, deepZero output2, 1)"
    using p z by (simp add: multiSame_def)
  from multiLoop_transfer [OF s(2) this]
  obtain t' where t': "foldE (multiStep K) (basisComponents (mBasis b))
      (eh, mShapeletHelper c, mBasisWorkspace c, deepZero output2, 1) = Inr t'"
      "multiSame (eh1, sh1, ws1, r, lr) t'" by blast
  obtain eh2 sh2 ws2 lr2 where "t' = (eh2, sh2, ws2, r, lr2)"
    using t'(2) by (cases t') (auto simp: multiSame_def)
  then show ?thesis
    unfolding MultiShapelet0_apply_Inr using r t'(1) p by auto
qed

lemma MultiShapeletMatrixBuilder0_Inr:
  assumes "MultiShapeletMatrixBuilder0 x y basis = Inr b"
  shows "mBasis b = basis" and "mbX (mBase b) = x" and "mbY (mBase b) = y"
  using assms
  by (auto simp: MultiShapeletMatrixBuilder0_def MatrixBuilder_def Let_def split: if_splits)


subsection \<open>Convolved multi-shapelet\<close>

lemma convolvedMultiStep_Inr:
  "convolvedMultiStep K x y e (eh, sh, bws, cws, out) c = Inr s' \<longleftrightarrow>
     (\<exists>eh1 bview sh1 bview1 cview p cview1 q out1.
        readEllipse K eh x y (fst (evaluate K (convolution c) (scaleCore K e (radius c)))) = Inr eh1
        \<and> colRange bws (getRowSize K c) = Inr bview
        \<and> ShapeletHelper_apply K sh (getColOrder (convolution c)) eh1 (deepZero bview)
            = Inr (sh1, bview1)
        \<and> rowRange cws (getRowSize K c) = Inr cview
        \<and> matmul (snd (evaluate K (convolution c) (scaleCore K e (radius c)))) (matrix c) = Inr p
        \<and> assign cview p = Inr cview1
        \<and> matmul bview1 cview1 = Inr q
        \<and> addAssign out q = Inr out1
        \<and> s' = (eh1, sh1, putColRange bws bview1, putRowRange cws cview1, out1))"
  by (auto simp: convolvedMultiStep_def Let_def andThen_Inr_iff split: prod.splits)

lemma convolvedMultiStep_preserves:
  assumes "convolvedMultiStep K x y e s c = Inr s'"
  shows "convShape s s'"
proof -
  obtain eh sh bws cws out where s: "s = (eh, sh, bws, cws, out)" by (cases s) auto
  from assms obtain eh1 bview sh1 bview1 cview p cview1 out1 where st:
    "readEllipse K eh x y (fst (evaluate K (convolution c) (scaleCore K e (radius c)))) = Inr eh1"
    "colRange bws (getRowSize K c) = Inr bview"
    "ShapeletHelper_apply K sh (getColOrder (convolution c)) eh1 (deepZero bview)
            = Inr (sh1, bview1)"
    "rowRange cws (getRowSize K c) = Inr cview"
    "assign cview p = Inr cview1"
    "s' = (eh1, sh1, putColRange bws bview1, putRowRange cws cview1, out1)"
    unfolding s convolvedMultiStep_Inr by blast
  have "ncols bview1 \<le> ncols bws"
    using ShapeletHelper_apply_preserves(3) [OF st(3)] colRange_shape(2,3) [OF st(2)] by simp
  then have b: "deepZero (putColRange bws bview1) = deepZero bws"
    using putColRange_shape by (simp add: deepZero_eq_iff)
  have "ncols cview1 = ncols cws"
    using st(5) rowRange_shape(2) [OF st(4)] by (auto simp: assign_Inr)
  then have c: "deepZero (putRowRange cws cview1) = deepZero cws"
    using putRowRange_shape by (simp add: deepZero_eq_iff)
  show ?thesis
    using b c ShapeletHelper_apply_preserves(1) [OF st(3)] readEllipse_lengths [OF st(1)]
    by (simp add: s st(6) convShape_def)
qed

lemma convolvedMultiStep_transfer:
  assumes "convolvedMultiStep K x y e s c = Inr s'" and "convSame s t"
  shows "\<exists>t'. convolvedMultiStep K x y e t c = Inr t' \<and> convSame s' t'"
proof -
  obtain eh sh bws cws out where s: "s = (eh, sh, bws, cws, out)" by (cases s) auto
  obtain eh2 sh2 bws2 cws2 where t: "t = (eh2, sh2, bws2, cws2, out)"
    and rel: "clearEllipseHelper eh2 = clearEllipseHelper eh"
      "clearShapeletHelper sh2 = clearShapeletHelper sh"
      "deepZero bws2 = deepZero bws" "deepZero cws2 = deepZero cws"
    using assms(2) by (cases t) (auto simp: s convSame_def)
  from assms(1) obtain eh1 bview sh1 bview1 cview p cview1 q out1 where st:
    "readEllipse K eh x y (fst (evaluate K (convolution c) (scaleCore K e (radius c)))) = Inr eh1"
    "colRange bws (getRowSize K c) = Inr bview"
    "ShapeletHelper_apply K sh (getColOrder (convolution c)) eh1 (deepZero bview)
            = Inr (sh1, bview1)"
    "rowRange cws (getRowSize K c) = Inr cview"
    "matmul (snd (evaluate K (convolution c) (scaleCore K e (radius c)))) (matrix c) = Inr p"
    "assign cview p = Inr cview1"
    "matmul bview1 cview1 = Inr q"
    "addAssign out q = Inr out1"
    "s' = (eh1, sh1, putColRange bws bview1, putRowRange cws cview1, out1)"
    unfolding s convolvedMultiStep_Inr by blast
  note bshp = rel(3) [unfolded deepZero_eq_iff] and cshp = rel(4) [unfolded deepZero_eq_iff]
  have r2: "readEllipse K eh2 x y
      (fst (evaluate K (convolution c) (scaleCore K e (radius c)))) = Inr eh1"
    using readEllipse_transfer [OF st(1) rel(1)] .
  obtain bview2 where v2: "colRange bws2 (getRowSize K c) = Inr bview2"
    using colRange_shape(3) [OF st(2)] bshp by (auto simp: colRange_def)
  have z: "deepZero bview2 = deepZero bview"
    using colRange_shape(1,2) [OF st(2)] colRange_shape(1,2) [OF v2] bshp
    by (simp add: deepZero_eq_iff)
  obtain g' where g': "ShapeletHelper_apply K sh2 (getColOrder (convolution c)) eh1
      (deepZero bview2) = Inr (g', bview1)"
    using ShapeletHelper_apply_transfer [OF st(3) rel(2)] z by auto
  obtain cview2 where c2: "rowRange cws2 (getRowSize K c) = Inr cview2"
    using rowRange_shape(3) [OF st(4)] cshp rowRange_total [of "getRowSize K c" cws2] by auto
  have a2: "assign cview2 p = Inr cview1"
    using st(6) rowRange_shape(1,2) [OF st(4)] rowRange_shape(1,2) [OF c2] cshp
    by (auto simp: assign_Inr)
  let ?t' = "(eh1, g', putColRange bws2 bview1, putRowRange cws2 cview1, out1)"
  have step: "convolvedMultiStep K x y e t c = Inr ?t'"
    unfolding t convolvedMultiStep_Inr using r2 v2 g' c2 st(5) a2 st(7,8) by blast
  have "ncols bview1 \<le> ncols bws"
    using ShapeletHelper_apply_preserves(3) [OF st(3)] colRange_shape(2,3) [OF st(2)] by simp
  then have b: "deepZero (putColRange bws2 bview1) = deepZero (putColRange bws bview1)"
    using putColRange_shape [of bview1 bws] putColRange_shape [of bview1 bws2] bshp
    by (simp add: deepZero_eq_iff)
  have "ncols cview1 = ncols cws"
    using st(6) rowRange_shape(2) [OF st(4)] by (auto simp: assign_Inr)
  then have c: "deepZero (putRowRange cws2 cview1) = deepZero (putRowRange cws cview1)"
    using putRowRange_shape [of cview1 cws] putRowRange_shape [of cview1 cws2] cshp
    by (simp add: deepZero_eq_iff)
  have "clearShapeletHelper g' = clearShapeletHelper sh1"
    using ShapeletHelper_apply_preserves(1) [OF st(3)] ShapeletHelper_apply_preserves(1) [OF g'] rel(2)
    by simp
  then have "convSame s' ?t'" using b c by (simp add: st(9) convSame_def)
  then show ?thesis using step by blast
qed

lemma convShape_refl: "convShape s s"
  by (cases s) (simp add: convShape_def)

lemma convShape_trans: "convShape s t \<Longrightarrow> convShape t u \<Longrightarrow> convShape s u"
  by (cases s, cases t, cases u) (simp add: convShape_def)

lemma convolvedMultiLoop_preserves:
  "foldE (convolvedMultiStep K x y e) cs s = Inr s' \<Longrightarrow> convShape s s'"
proof (induction cs arbitrary: s)
  case Nil
  then show ?case by (simp add: convShape_refl)
next
  case (Cons c cs)
  then obtain m where m: "convolvedMultiStep K x y e s c = Inr m"
    "foldE (convolvedMultiStep K x y e) cs m = Inr s'"
    by (auto simp: andThen_Inr_iff)
  show ?case
    using convShape_trans [OF convolvedMultiStep_preserves [OF m(1)] Cons.IH [OF m(2)]] .
qed

lemma convolvedMultiLoop_transfer:
  "foldE (convolvedMultiStep K x y e) cs s = Inr s' \<Longrightarrow> convSame s t \<Longrightarrow>
     \<exists>t'. foldE (convolvedMultiStep K x y e) cs t = Inr t' \<and> convSame s' t'"
proof (induction cs arbitrary: s t)
  case Nil
  then show ?case by simp
next
  case (Cons c cs)
  then obtain m where m: "convolvedMultiStep K x y e s c = Inr m"
    "foldE (convolvedMultiStep K x y e) cs m = Inr s'"
    by (auto simp: andThen_Inr_iff)
  obtain m2 where m2: "convolvedMultiStep K x y e t c = Inr m2" "convSame m m2"
    using convolvedMultiStep_transfer [OF m(1) Cons.prems(2)] by blast
  show ?case using Cons.IH [OF m(2) m2(2)] m2(1) by simp
qed

lemma ConvolvedMultiShapelet_persistent_iff:
  "persistentState (ConvolvedMultiShapelet c) = persistentState (ConvolvedMultiShapelet b) \<longleftrightarrow>
     cmBase c = cmBase b \<and> cmComponents c = cmComponents b
     \<and> clearEllipseHelper (cmEllipseHelper c) = clearEllipseHelper (cmEllipseHelper b)
     \<and> clearShapeletHelper (cmShapeletHelper c) = clearShapeletHelper (cmShapeletHelper b)
     \<and> deepZero (cmBasisWorkspace c) = deepZero (cmBasisWorkspace b)
     \<and> deepZero (cmConvolutionWorkspace c) = deepZero (cmConvolutionWorkspace b)"
  by (cases c, cases b) (auto simp: persistentState_def)

lemma ConvolvedMultiShapelet_apply_Inr:
  "ConvolvedMultiShapeletMatrixBuilder_apply K b output ellipse = Inr (b', r) \<longleftrightarrow>
     (\<exists>eh1 sh1 bws1 cws1.
        foldE (convolvedMultiStep K (mbX (cmBase b)) (mbY (cmBase b)) ellipse) (cmComponents b)
            (cmEllipseHelper b, cmShapeletHelper b, cmBasisWorkspace b,
             cmConvolutionWorkspace b, deepZero output)
            = Inr (eh1, sh1, bws1, cws1, r)
        \<and> b' = b\<lparr>cmEllipseHelper := eh1, cmShapeletHelper := sh1,
                  cmBasisWorkspace := bws1, cmConvolutionWorkspace := cws1\<rparr>)"
  by (auto simp: ConvolvedMultiShapeletMatrixBuilder_apply_def Let_def andThen_Inr_iff)

lemma ConvolvedMultiShapelet_preserves:
  assumes "ConvolvedMultiShapeletMatrixBuilder_apply K b output ellipse = Inr (b', r)"
  shows "persistentState (ConvolvedMultiShapelet b') = persistentState (ConvolvedMultiShapelet b)"
proof -
  from assms obtain eh1 sh1 bws1 cws1 where s:
    "foldE (convolvedMultiStep K (mbX (cmBase b)) (mbY (cmBase b)) ellipse) (cmComponents b)
            (cmEllipseHelper b, cmShapeletHelper b, cmBasisWorkspace b,
             cmConvolutionWorkspace b, deepZero output)
            = Inr (eh1, sh1, bws1, cws1, r)"
    "b' = b\<lparr>cmEllipseHelper := eh1, cmShapeletHelper := sh1,
                  cmBasisWorkspace := bws1, cmConvolutionWorkspace := cws1\<rparr>"
    unfolding ConvolvedMultiShapelet_apply_Inr by blast
  show ?thesis
    using convolvedMultiLoop_preserves [OF s(1)] s(2)
    by (simp add: ConvolvedMultiShapelet_persistent_iff convShape_def)
qed

lemma ConvolvedMultiShapelet_transfer:
  assumes "ConvolvedMultiShapeletMatrixBuilder_apply K b output ellipse = Inr (b', r)"
    and "persistentState (ConvolvedMultiShapelet c) = persistentState (ConvolvedMultiShapelet b)"
    and "nrows output2 = nrows output" and "ncols output2 = ncols output"
  shows "\<exists>c'. ConvolvedMultiShapeletMatrixBuilder_apply K c output2 ellipse = Inr (c', r)"
proof -
  have z: "deepZero output2 = deepZero output" using assms(3,4) by (simp add: deepZero_eq_iff)
  from assms(1) obtain eh1 sh1 bws1 cws1 where s:
    "foldE (convolvedMultiStep K (mbX (cmBase b)) (mbY (cmBase b)) ellipse) (cmComponents b)
            (cmEllipseHelper b, cmShapeletHelper b, cmBasisWorkspace b,
             cmConvolutionWorkspace b, deepZero output)
            = Inr (eh1, sh1, bws1, cws1, r)"
    unfolding ConvolvedMultiShapelet_apply_Inr by blast
  note p = assms(2) [unfolded ConvolvedMultiShapelet_persistent_iff]
  have "convSame (cmEllipseHelper b, cmShapeletHelper b, cmBasisWorkspace b,
             cmConvolutionWorkspace b, deepZero output)
          (cmEllipseHelper c, cmShapeletHelper c, cmBasisWorkspace c,
             cmConvolutionWorkspace c, deepZero output2)"
    using p z by (simp add: convSame_def)
  from convolvedMultiLoop_transfer [OF s this]
  obtain t' where t': "foldE (convolvedMultiStep K (mbX (cmBase b)) (mbY (cmBase b)) ellipse)
      (cmComponents b)
      (cmEllipseHelper c, cmShapeletHelper c, cmBasisWorkspace c,
             cmConvolutionWorkspace c, deepZero output2) = Inr t'"
      "convSame (eh1, sh1, bws1, cws1, r) t'" by blast
  obtain eh2 sh2 bws2 cws2 where "t' = (eh2, sh2, bws2, cws2, r)"
    using t'(2) by (cases t') (auto simp: convSame_def)
  then show ?thesis
    unfolding ConvolvedMultiShapelet_apply_Inr using t'(1) p by auto
qed


section \<open>Evaluation at concrete inputs\<close>

lemmas eval_defs =
  ConvolvedShapeletMatrixBuilder_def ConvolvedShapeletMatrixBuilder_apply_def
  MultiShapeletMatrixBuilder0_def MultiShapeletMatrixBuilder0_apply_def multiStep_def
  ShapeletMatrixBuilder_def ShapeletMatrixBuilder_apply_def
  ConvolvedMultiShapeletMatrixBuilder_def ConvolvedMultiShapeletMatrixBuilder_apply_def
  convolvedMultiStep_def makeComponents_def Component_def getRowSize_def
  computeMaxOrder_def getMaxOrder_def scale_def
  MatrixBuilder_def getDataSize_def GaussHermiteConvolution_def getColOrder_def
  allocate_def makeView_def makeView1_def EllipseHelper_def ShapeletHelper_def
  circles_def psfA_def psfB_def basisA_def onesMatrix_def circleTransform_def
  compA_def compB_def
  deepZero_def ncols_def readEllipse_def cwise_def computeDeterminant_def
  ShapeletHelper_apply_def fillHermite1d_def hermiteStep_def accumulateStep_def
  packedIndices_def computeOffset_def computeSize_def col_def setCol_def
  matmul_def assign_def addAssign_def colRange_def rowRange_def putColRange_def
  putRowRange_def Let_def

lemmas factory_defs =
  makeMatrixBuilder_order_def makeMatrixBuilder_psf_order_def makeMatrixBuilder_basis_def
  make_shared_def MatrixBuilder_apply_def withBuilder_def compC_def


section \<open>Repeated calls of apply\<close>

lemma apply_preserves:
  assumes "MatrixBuilder_apply K b output ellipse = Inr (b', r)"
  shows "persistentState b' = persistentState b"
proof (cases b)
  case (Gaussian g)
  then show ?thesis using assms Gaussian_preserves
    by (auto simp: MatrixBuilder_apply_def withBuilder_def andThen_Inr_iff)
next
  case (ConvolvedGaussian g)
  then show ?thesis using assms ConvolvedGaussian_preserves
    by (auto simp: MatrixBuilder_apply_def withBuilder_def andThen_Inr_iff)
next
  case (Shapelet g)
  then show ?thesis using assms Shapelet_preserves
    by (auto simp: MatrixBuilder_apply_def withBuilder_def andThen_Inr_iff)
next
  case (ConvolvedShapelet g)
  then show ?thesis using assms ConvolvedShapelet_preserves
    by (auto simp: MatrixBuilder_apply_def withBuilder_def andThen_Inr_iff)
next
  case (MultiShapelet0 g)
  then show ?thesis using assms MultiShapelet0_preserves
    by (auto simp: MatrixBuilder_apply_def withBuilder_def andThen_Inr_iff)
next
  case (ConvolvedMultiShapelet g)
  then show ?thesis using assms ConvolvedMultiShapelet_preserves
    by (auto simp: MatrixBuilder_apply_def withBuilder_def andThen_Inr_iff)
qed

lemma persistentState_variant:
  assumes "persistentState c = persistentState b"
  shows "(\<exists>g h. c = Gaussian g \<and> b = Gaussian h)
       \<or> (\<exists>g h. c = ConvolvedGaussian g \<and> b = ConvolvedGaussian h)
       \<or> (\<exists>g h. c = Shapelet g \<and> b = Shapelet h)
       \<or> (\<exists>g h. c = ConvolvedShapelet g \<and> b = ConvolvedShapelet h)
       \<or> (\<exists>g h. c = MultiShapelet0 g \<and> b = MultiShapelet0 h)
       \<or> (\<exists>g h. c = ConvolvedMultiShapelet g \<and> b = ConvolvedMultiShapelet h)"
  using assms by (cases c; cases b) (simp_all add: persistentState_def)

lemma apply_transfer:
  assumes "MatrixBuilder_apply K b output ellipse = Inr (b', r)"
    and "persistentState c = persistentState b"
    and "nrows output2 = nrows output" and "ncols output2 = ncols output"
  shows "\<exists>c'. MatrixBuilder_apply K c output2 ellipse = Inr (c', r)"
  using persistentState_variant [OF assms(2)]
proof (elim disjE exE conjE)
  fix g h assume v: "c = Gaussian g" "b = Gaussian h"
  then obtain h' where "GaussianMatrixBuilder_apply K h output ellipse = Inr (h', r)"
    using assms(1) by (auto simp: MatrixBuilder_apply_def withBuilder_def andThen_Inr_iff)
  from Gaussian_transfer [OF this assms(2) [unfolded v] assms(3,4)]
  show ?thesis by (auto simp: v MatrixBuilder_apply_def withBuilder_def)
next
  fix g h assume v: "c = ConvolvedGaussian g" "b = ConvolvedGaussian h"
  then obtain h' where "ConvolvedGaussianMatrixBuilder_apply K h output ellipse = Inr (h', r)"
    using assms(1) by (auto simp: MatrixBuilder_apply_def withBuilder_def andThen_Inr_iff)
  from ConvolvedGaussian_transfer [OF this assms(2) [unfolded v] assms(3,4)]
  show ?thesis by (auto simp: v MatrixBuilder_apply_def withBuilder_def)
next
  fix g h assume v: "c = Shapelet g" "b = Shapelet h"
  then obtain h' where "ShapeletMatrixBuilder_apply K h output ellipse = Inr (h', r)"
    using assms(1) by (auto simp: MatrixBuilder_apply_def withBuilder_def andThen_Inr_iff)
  from Shapelet_transfer [OF this assms(2) [unfolded v] assms(3,4)]
  show ?thesis by (auto simp: v MatrixBuilder_apply_def withBuilder_def)
next
  fix g h assume v: "c = ConvolvedShapelet g" "b = ConvolvedShapelet h"
  then obtain h' where "ConvolvedShapeletMatrixBuilder_apply K h output ellipse = Inr (h', r)"
    using assms(1) by (auto simp: MatrixBuilder_apply_def withBuilder_def andThen_Inr_iff)
  from ConvolvedShapelet_transfer [OF this assms(2) [unfolded v] assms(3,4)]
  show ?thesis by (auto simp: v MatrixBuilder_apply_def withBuilder_def)
next
  fix g h assume v: "c = MultiShapelet0 g" "b = MultiShapelet0 h"
  then obtain h' where "MultiShapeletMatrixBuilder0_apply K h output ellipse = Inr (h', r)"
    using assms(1) by (auto simp: MatrixBuilder_apply_def withBuilder_def andThen_Inr_iff)
  from MultiShapelet0_transfer [OF this assms(2) [unfolded v] assms(3,4)]
  show ?thesis by (auto simp: v MatrixBuilder_apply_def withBuilder_def)
next
  fix g h assume v: "c = ConvolvedMultiShapelet g" "b = ConvolvedMultiShapelet h"
  then obtain h' where
    "ConvolvedMultiShapeletMatrixBuilder_apply K h output ellipse = Inr (h', r)"
    using assms(1) by (auto simp: MatrixBuilder_apply_def withBuilder_def andThen_Inr_iff)
  from ConvolvedMultiShapelet_transfer [OF this assms(2) [unfolded v] assms(3,4)]
  show ?thesis by (auto simp: v MatrixBuilder_apply_def withBuilder_def)
qed


text \<open>
  What a call that returns leaves behind. For each of the six builders: when \<open>apply\<close>
  returns, the persistent state of the builder is what it was before the call; it is still
  that after any later call of \<open>apply\<close> that returns, with whatever ellipse; and a second
  call with the same ellipse, on an output array of the same shape, returns and produces
  the same output matrix. Which calls return is the matter of the last section.
\<close>

lemma apply_leaves_persistent_state:
  assumes "MatrixBuilder_apply K b output ellipse = Inr (b', r)"
  shows "persistentState b' = persistentState b
       \<and> (\<forall>ellipse2 output2 b2 r2.
             MatrixBuilder_apply K b' output2 ellipse2 = Inr (b2, r2) \<longrightarrow>
               persistentState b2 = persistentState b)
       \<and> (\<forall>output2. nrows output2 = nrows output \<and> ncols output2 = ncols output \<longrightarrow>
             (\<exists>b2. MatrixBuilder_apply K b' output2 ellipse = Inr (b2, r)))"
proof (intro conjI allI impI)
  show p: "persistentState b' = persistentState b" using apply_preserves [OF assms] .
  show "persistentState b2 = persistentState b"
    if "MatrixBuilder_apply K b' output2 ellipse2 = Inr (b2, r2)" for ellipse2 output2 b2 r2
    using apply_preserves [OF that] p by simp
  show "\<exists>b2. MatrixBuilder_apply K b' output2 ellipse = Inr (b2, r)"
    if "nrows output2 = nrows output \<and> ncols output2 = ncols output" for output2
    using apply_transfer [OF assms p] that by blast
qed


text \<open>
  An instance: the builder that the factory returns for two samples and order 1.
\<close>

lemma apply_leaves_persistent_state_witness:
  "\<exists>b b' r. makeMatrixBuilder_order [0, 1] [0, 0] 1 = Inr b
     \<and> MatrixBuilder_apply circles b (allocate 2 3) 2 = Inr (b', r)
     \<and> persistentState b' = persistentState b
     \<and> (\<exists>b2. MatrixBuilder_apply circles b' (allocate 2 3) 2 = Inr (b2, r))"
proof -
  have "\<exists>r. andThen (makeMatrixBuilder_order [0, 1] [0, 0] 1)
               (\<lambda>b. MatrixBuilder_apply circles b (allocate 2 3) (2::real)) = Inr r"
    by (simp add: makeMatrixBuilder_order_def make_shared_def MatrixBuilder_apply_def
        withBuilder_def eval_defs upt_rec)
  then obtain b b' r where b: "makeMatrixBuilder_order [0, 1] [0, 0] 1 = Inr b"
    "MatrixBuilder_apply circles b (allocate 2 3) 2 = Inr (b', r)"
    by (auto simp: andThen_Inr_iff)
  from apply_leaves_persistent_state [OF b(2)]
  have "persistentState b' = persistentState b"
    "\<exists>b2. MatrixBuilder_apply circles b' (allocate 2 3) 2 = Inr (b2, r)"
    by auto
  then show ?thesis using b by blast
qed


section \<open>The multi-shapelet builder and its components\<close>

text \<open>
  What the three builders produce when all three calls return. Take a multi-shapelet
  builder whose basis has the two components \<open>c1\<close> and \<open>c2\<close>, and two builders over the same
  samples whose bases have the single component \<open>c1\<close> and the single component \<open>c2\<close>; let
  the radii be positive. When \<open>apply\<close> returns for the three builders at the same ellipse,
  the output of the first is the sum of the outputs of the other two. In the builder of
  both components the coordinates are rescaled relative to the radius of the component
  before (by \<open>r1 / 1\<close>, then by \<open>r2 / r1\<close>), and they end as the coordinates that
  \<open>readEllipse\<close> stored, each divided by \<open>r2\<close>. For builders that the constructor makes,
  the three calls return together only when the two orders are equal and the number of
  samples is that order plus one (see the last section).
\<close>

lemma two_components_sum:
  assumes comps: "basisComponents (mBasis b12) = [c1, c2]"
      "basisComponents (mBasis b1) = [c1]" "basisComponents (mBasis b2) = [c2]"
    and samples: "mbX (mBase b1) = mbX (mBase b12)" "mbY (mBase b1) = mbY (mBase b12)"
      "mbX (mBase b2) = mbX (mBase b12)" "mbY (mBase b2) = mbY (mBase b12)"
    and radii: "0 < bcRadius c1" "0 < bcRadius c2"
    and a12: "MultiShapeletMatrixBuilder0_apply K b12 output ellipse = Inr (b12', o12)"
    and a1: "MultiShapeletMatrixBuilder0_apply K b1 output ellipse = Inr (b1', o1)"
    and a2: "MultiShapeletMatrixBuilder0_apply K b2 output ellipse = Inr (b2', o2)"
  shows "addAssign o1 o2 = Inr o12
       \<and> (\<exists>eh. readEllipse K (mEllipseHelper b12) (mbX (mBase b12)) (mbY (mBase b12)) ellipse
                 = Inr eh
             \<and> mEllipseHelper b12' = scale (scale eh (bcRadius c1 / 1)) (bcRadius c2 / bcRadius c1)
             \<and> mEllipseHelper b12' = mEllipseHelper b2'
             \<and> xt (mEllipseHelper b12') = map (\<lambda>v. v / bcRadius c2) (xt eh)
             \<and> yt (mEllipseHelper b12') = map (\<lambda>v. v / bcRadius c2) (yt eh))"
proof -
  let ?x = "mbX (mBase b12)" and ?y = "mbY (mBase b12)"
  let ?z = "deepZero output"
  let ?r1 = "bcRadius c1" and ?r2 = "bcRadius c2"
  \<comment> \<open>the builder of both components\<close>
  from a12 obtain eh ehF shF wsF lrF where s12:
    "readEllipse K (mEllipseHelper b12) ?x ?y ellipse = Inr eh"
    "foldE (multiStep K) [c1, c2] (eh, mShapeletHelper b12, mBasisWorkspace b12, ?z, 1)
       = Inr (ehF, shF, wsF, o12, lrF)"
    "b12' = b12\<lparr>mEllipseHelper := ehF, mShapeletHelper := shF, mBasisWorkspace := wsF\<rparr>"
    unfolding MultiShapelet0_apply_Inr comps by blast
  from s12(2) obtain m where m:
    "multiStep K (eh, mShapeletHelper b12, mBasisWorkspace b12, ?z, 1) c1 = Inr m"
    "multiStep K m c2 = Inr (ehF, shF, wsF, o12, lrF)"
    by (auto simp: andThen_Inr_iff)
  from m(1) obtain viewA shA viewA1 pA outA where sa:
    "colRange (mBasisWorkspace b12) (computeSize (bcOrder c1)) = Inr viewA"
    "ShapeletHelper_apply K (mShapeletHelper b12) (bcOrder c1) (scale eh (?r1 / 1))
       (deepZero viewA) = Inr (shA, viewA1)"
    "matmul viewA1 (bcMatrix c1) = Inr pA"
    "addAssign ?z pA = Inr outA"
    "m = (scale eh (?r1 / 1), shA, putColRange (mBasisWorkspace b12) viewA1, outA, ?r1)"
    unfolding multiStep_Inr by blast
  from m(2) obtain viewB shB viewB1 pB where sb:
    "colRange (putColRange (mBasisWorkspace b12) viewA1) (computeSize (bcOrder c2)) = Inr viewB"
    "ShapeletHelper_apply K shA (bcOrder c2) (scale (scale eh (?r1 / 1)) (?r2 / ?r1))
       (deepZero viewB) = Inr (shB, viewB1)"
    "matmul viewB1 (bcMatrix c2) = Inr pB"
    "addAssign outA pB = Inr o12"
    "ehF = scale (scale eh (?r1 / 1)) (?r2 / ?r1)"
    unfolding sa(5) multiStep_Inr by blast
  have sc: "scale (scale eh (?r1 / 1)) (?r2 / ?r1) = scale eh (?r2 / 1)"
    using radii(1) by (intro scale_scale) simp
  \<comment> \<open>the builder of the first component\<close>
  from a1 obtain eh1 ehG shG wsG lrG where s1:
    "readEllipse K (mEllipseHelper b1) ?x ?y ellipse = Inr eh1"
    "foldE (multiStep K) [c1] (eh1, mShapeletHelper b1, mBasisWorkspace b1, ?z, 1)
       = Inr (ehG, shG, wsG, o1, lrG)"
    unfolding MultiShapelet0_apply_Inr comps samples by blast
  have e1: "eh1 = eh" using s1(1) s12(1) by (simp add: readEllipse_Inr)
  from s1(2) obtain viewC shC viewC1 pC where sc1:
    "colRange (mBasisWorkspace b1) (computeSize (bcOrder c1)) = Inr viewC"
    "ShapeletHelper_apply K (mShapeletHelper b1) (bcOrder c1) (scale eh (?r1 / 1))
       (deepZero viewC) = Inr (shC, viewC1)"
    "matmul viewC1 (bcMatrix c1) = Inr pC"
    "addAssign ?z pC = Inr o1"
    unfolding e1 by (auto simp: andThen_Inr_iff multiStep_Inr)
  have "deepZero viewC = deepZero viewA"
    using ShapeletHelper_apply_rows [OF sa(2)] ShapeletHelper_apply_rows [OF sc1(2)]
      colRange_shape(2) [OF sa(1)] colRange_shape(2) [OF sc1(1)]
    by (simp add: deepZero_eq_iff)
  then have "viewC1 = viewA1"
    using ShapeletHelper_apply_deterministic [OF sc1(2), of "mShapeletHelper b12"] sa(2) by simp
  then have o1: "o1 = outA" using sc1(3,4) sa(3,4) by simp
  \<comment> \<open>the builder of the second component\<close>
  from a2 obtain eh2 ehH shH wsH lrH where s2:
    "readEllipse K (mEllipseHelper b2) ?x ?y ellipse = Inr eh2"
    "foldE (multiStep K) [c2] (eh2, mShapeletHelper b2, mBasisWorkspace b2, ?z, 1)
       = Inr (ehH, shH, wsH, o2, lrH)"
    "b2' = b2\<lparr>mEllipseHelper := ehH, mShapeletHelper := shH, mBasisWorkspace := wsH\<rparr>"
    unfolding MultiShapelet0_apply_Inr comps samples by blast
  have e2: "eh2 = eh" using s2(1) s12(1) by (simp add: readEllipse_Inr)
  from s2(2) obtain viewD shD viewD1 pD where sd:
    "colRange (mBasisWorkspace b2) (computeSize (bcOrder c2)) = Inr viewD"
    "ShapeletHelper_apply K (mShapeletHelper b2) (bcOrder c2) (scale eh (?r2 / 1))
       (deepZero viewD) = Inr (shD, viewD1)"
    "matmul viewD1 (bcMatrix c2) = Inr pD"
    "addAssign ?z pD = Inr o2"
    "ehH = scale eh (?r2 / 1)"
    unfolding e2 by (auto simp: andThen_Inr_iff multiStep_Inr)
  have "deepZero viewD = deepZero viewB"
    using ShapeletHelper_apply_rows [OF sb(2)] ShapeletHelper_apply_rows [OF sd(2)]
      colRange_shape(2) [OF sb(1)] colRange_shape(2) [OF sd(1)]
    by (simp add: deepZero_eq_iff scale_def)
  then have "viewD1 = viewB1"
    using ShapeletHelper_apply_deterministic [OF sd(2), of shA] sb(2) sc by simp
  then have pD: "pD = pB" using sd(3) sb(3) by simp
  \<comment> \<open>the sums\<close>
  have shA: "nrows ?z = nrows pA" "ncols ?z = ncols pA"
    using sa(4) by (auto simp: addAssign_Inr)
  have shB: "nrows ?z = nrows pB" "ncols ?z = ncols pB"
    using sd(4) pD by (auto simp: addAssign_Inr)
  have "\<forall>c \<in> set (columns pA). length c = nrows pA"
    using matmul_columns [OF sa(3)] by simp
  then have outA: "outA = pA"
    using addAssign_zero [of "output" pA] shA sa(4) by simp
  have "\<forall>c \<in> set (columns pB). length c = nrows pB"
    using matmul_columns [OF sb(3)] by simp
  then have o2: "o2 = pB"
    using addAssign_zero [of "output" pB] shB sd(4) pD by simp
  have "addAssign o1 o2 = Inr o12" using sb(4) by (simp add: o1 o2)
  moreover have "mEllipseHelper b12' = scale (scale eh (?r1 / 1)) (?r2 / ?r1)"
    using s12(3) sb(5) by simp
  moreover have "mEllipseHelper b12' = mEllipseHelper b2'"
    using s12(3) sb(5) s2(3) sd(5) sc by simp
  moreover have "xt (mEllipseHelper b12') = map (\<lambda>v. v / ?r2) (xt eh)"
    "yt (mEllipseHelper b12') = map (\<lambda>v. v / ?r2) (yt eh)"
    using s12(3) sb(5) sc by (simp_all add: scale_def)
  ultimately show ?thesis using s12(1) by blast
qed


text \<open>
  An instance: the builders that the constructor makes for two samples and two components
  of order 1 with the radii 1 and 2.
\<close>

lemma two_components_sum_witness:
  "\<exists>b12 b1 b2 b12' b1' b2' o12 o1 o2.
      MultiShapeletMatrixBuilder0 [0, 1] [0, 0]
        \<lparr>basisSize = 2, basisComponents = [compA, compB]\<rparr> = Inr b12
    \<and> MultiShapeletMatrixBuilder0 [0, 1] [0, 0]
        \<lparr>basisSize = 2, basisComponents = [compA]\<rparr> = Inr b1
    \<and> MultiShapeletMatrixBuilder0 [0, 1] [0, 0]
        \<lparr>basisSize = 2, basisComponents = [compB]\<rparr> = Inr b2
    \<and> MultiShapeletMatrixBuilder0_apply circles b12 (allocate 2 2) 1 = Inr (b12', o12)
    \<and> MultiShapeletMatrixBuilder0_apply circles b1 (allocate 2 2) 1 = Inr (b1', o1)
    \<and> MultiShapeletMatrixBuilder0_apply circles b2 (allocate 2 2) 1 = Inr (b2', o2)
    \<and> addAssign o1 o2 = Inr o12"
proof -
  have "\<exists>r. andThen (MultiShapeletMatrixBuilder0 [0, 1] [0, 0]
                \<lparr>basisSize = 2, basisComponents = [compA, compB]\<rparr>)
             (\<lambda>b. MultiShapeletMatrixBuilder0_apply circles b (allocate 2 2) 1) = Inr r"
    by (simp add: eval_defs upt_rec)
  then obtain b12 b12' o12 where b12:
    "MultiShapeletMatrixBuilder0 [0, 1] [0, 0]
        \<lparr>basisSize = 2, basisComponents = [compA, compB]\<rparr> = Inr b12"
    "MultiShapeletMatrixBuilder0_apply circles b12 (allocate 2 2) 1 = Inr (b12', o12)"
    by (auto simp: andThen_Inr_iff)
  have "\<exists>r. andThen (MultiShapeletMatrixBuilder0 [0, 1] [0, 0]
                \<lparr>basisSize = 2, basisComponents = [compA]\<rparr>)
             (\<lambda>b. MultiShapeletMatrixBuilder0_apply circles b (allocate 2 2) 1) = Inr r"
    by (simp add: eval_defs upt_rec)
  then obtain b1 b1' o1 where b1:
    "MultiShapeletMatrixBuilder0 [0, 1] [0, 0]
        \<lparr>basisSize = 2, basisComponents = [compA]\<rparr> = Inr b1"
    "MultiShapeletMatrixBuilder0_apply circles b1 (allocate 2 2) 1 = Inr (b1', o1)"
    by (auto simp: andThen_Inr_iff)
  have "\<exists>r. andThen (MultiShapeletMatrixBuilder0 [0, 1] [0, 0]
                \<lparr>basisSize = 2, basisComponents = [compB]\<rparr>)
             (\<lambda>b. MultiShapeletMatrixBuilder0_apply circles b (allocate 2 2) 1) = Inr r"
    by (simp add: eval_defs upt_rec)
  then obtain b2 b2' o2 where b2:
    "MultiShapeletMatrixBuilder0 [0, 1] [0, 0]
        \<lparr>basisSize = 2, basisComponents = [compB]\<rparr> = Inr b2"
    "MultiShapeletMatrixBuilder0_apply circles b2 (allocate 2 2) 1 = Inr (b2', o2)"
    by (auto simp: andThen_Inr_iff)
  note i12 = MultiShapeletMatrixBuilder0_Inr [OF b12(1)]
    and i1 = MultiShapeletMatrixBuilder0_Inr [OF b1(1)]
    and i2 = MultiShapeletMatrixBuilder0_Inr [OF b2(1)]
  have "addAssign o1 o2 = Inr o12"
    using two_components_sum [of b12 compA compB b1 b2 circles "allocate 2 2" 1 b12' o12 b1' o1 b2' o2]
      b12(2) b1(2) b2(2) i12 i1 i2
    by (simp add: compA_def compB_def)
  then show ?thesis using b12 b1 b2 by blast
qed


section \<open>The shapes of the buffers made at construction\<close>

text \<open>
  C2, at two samples, order 1 and a PSF of order 0 (so the row order that the convolution
  reports is 1). The claim has \<open>apply\<close> evaluate the basis at the row order into the
  workspace and set the output to the workspace times the convolution matrix. The
  constructor allocates the workspace with as many columns as the row order (1), where the
  basis of that order has 3 functions, and \<open>apply\<close> asks the helper for the col order: the
  evaluation writes past the last column of the workspace, and \<open>apply\<close> ends there.
\<close>

theorem convolved_shapelet_workspace_too_narrow:
  "map_sum id (\<lambda>b. (ncols (csConvolutionWorkspace b),
                     computeSize (getRowOrder circles (csConvolution b))))
     (ConvolvedShapeletMatrixBuilder circles [0, 1] [0, 0] psfA 1) = Inr (1, 3)
   \<and> andThen (ConvolvedShapeletMatrixBuilder circles [0, 1] [0, 0] psfA 1)
       (\<lambda>b. ConvolvedShapeletMatrixBuilder_apply circles b (allocate 2 3) 1) = Inl OutOfBounds"
  by (simp add: eval_defs upt_rec)


text \<open>
  The same holds for every input: the workspace never has the width that the product with
  the convolution matrix needs, whose number of rows is the basis size of the row order.
\<close>

lemma convolved_shapelet_never_returns:
  assumes "ConvolvedShapeletMatrixBuilder K x y psf order = Inr b"
    and "nrows (snd (evaluate K (csConvolution b) ellipse))
           = computeSize (getRowOrder K (csConvolution b))"
  shows "ConvolvedShapeletMatrixBuilder_apply K b out ellipse \<noteq> Inr r"
proof
  assume "ConvolvedShapeletMatrixBuilder_apply K b out ellipse = Inr r"
  then obtain eh sh ws p where s:
    "ShapeletHelper_apply K (csShapeletHelper b) (getColOrder (csConvolution b)) eh
            (deepZero (csConvolutionWorkspace b)) = Inr (sh, ws)"
    "matmul ws (snd (evaluate K (csConvolution b) ellipse)) = Inr p"
    by (cases r) (auto simp: ConvolvedShapelet_apply_Inr)
  from assms(1) have w: "ncols (csConvolutionWorkspace b) = getRowOrder K (csConvolution b)"
    by (auto simp: ConvolvedShapeletMatrixBuilder_def MatrixBuilder_def Let_def
        allocate_def ncols_def split: if_splits)
  have "ncols ws = getRowOrder K (csConvolution b)"
    using ShapeletHelper_apply_preserves(3) [OF s(1)] w by simp
  moreover have "ncols ws = computeSize (getRowOrder K (csConvolution b))"
    using s(2) assms(2) by (auto simp: matmul_def split: if_splits)
  ultimately show False using computeSize_gt [of "getRowOrder K (csConvolution b)"] by simp
qed


text \<open>
  C9, at three samples, order 2 and a PSF of order 0, through the factory. The claim has
  every buffer sized at construction from the worst-case order and every view taken
  during \<open>apply\<close> lie within its buffer. The factory returns a convolved shapelet builder
  whose constructor allocated the convolution workspace with as many columns as the row
  order (2), where the basis that \<open>apply\<close> evaluates into it has 6 functions: the column
  view \<open>view.col(2)\<close> that \<open>ShapeletHelper::apply\<close> takes of the workspace is outside the
  buffer, and \<open>apply\<close> ends there.
\<close>

theorem convolved_shapelet_view_outside_workspace:
  "makeMatrixBuilder_psf_order circles [0, 1, 2] [0, 0, 1] psfA 2
     = make_shared ConvolvedShapelet
         (ConvolvedShapeletMatrixBuilder circles [0, 1, 2] [0, 0, 1] psfA 2)
   \<and> map_sum id (\<lambda>b. (nrows (csConvolutionWorkspace b), ncols (csConvolutionWorkspace b),
                      computeSize (getColOrder (csConvolution b)),
                      computeSize (getRowOrder circles (csConvolution b))))
       (ConvolvedShapeletMatrixBuilder circles [0, 1, 2] [0, 0, 1] psfA 2) = Inr (3, 2, 6, 6)
   \<and> andThen (makeMatrixBuilder_psf_order circles [0, 1, 2] [0, 0, 1] psfA 2)
       (\<lambda>b. MatrixBuilder_apply circles b (allocate 3 6) 1) = Inl OutOfBounds"
  by (simp add: eval_defs factory_defs upt_rec)

text \<open>
  The class \<open>ConvolvedMultiShapeletMatrixBuilder\<close> has the slip of the same kind in its two
  workspaces. No overload of the factory constructs it (the overload for a PSF and a basis
  throws), so the two facts below are about the class alone: an instance, and every
  construction with at least one component.
\<close>

lemma convolved_multi_view_exceeds_workspace:
  "map_sum id (\<lambda>b. (ncols (cmBasisWorkspace b), map (getRowSize circles) (cmComponents b)))
     (ConvolvedMultiShapeletMatrixBuilder circles [0, 1] [0, 0] \<lparr>msfElements = [psfA]\<rparr> basisB)
     = Inr (1, [3])
   \<and> andThen (ConvolvedMultiShapeletMatrixBuilder circles [0, 1] [0, 0]
                \<lparr>msfElements = [psfA]\<rparr> basisB)
       (\<lambda>b. ConvolvedMultiShapeletMatrixBuilder_apply circles b (allocate 2 2) 1)
     = Inl OutOfBounds"
  by (simp add: eval_defs basisB_def upt_rec)

lemma foldl_max_cases:
  "foldl (\<lambda>m c. max m (f c)) a cs = a \<or> (\<exists>c \<in> set cs. foldl (\<lambda>m c. max m (f c)) a cs = f c)"
proof (induction cs arbitrary: a)
  case Nil
  then show ?case by simp
next
  case (Cons c cs)
  from Cons.IH [of "max a (f c)"] show ?case by (auto simp: max_def split: if_splits)
qed

lemma largest_row_size_exceeds:
  fixes f :: "'a \<Rightarrow> nat"
  assumes "cs \<noteq> []"
  shows "\<exists>c \<in> set cs. foldl (\<lambda>m c. max m (f c)) 0 cs < computeSize (f c)"
proof -
  from foldl_max_cases [of f 0 cs] show ?thesis
  proof
    assume z: "foldl (\<lambda>m c. max m (f c)) 0 cs = 0"
    obtain c where "c \<in> set cs" using assms by (cases cs) auto
    moreover have "0 < computeSize (f c)" using computeSize_gt [of "f c"] by simp
    ultimately show ?thesis using z by auto
  next
    assume "\<exists>c \<in> set cs. foldl (\<lambda>m c. max m (f c)) 0 cs = f c"
    then obtain c where c: "c \<in> set cs" "foldl (\<lambda>m c. max m (f c)) 0 cs = f c" by blast
    have "foldl (\<lambda>m c. max m (f c)) 0 cs < computeSize (f c)"
      unfolding c(2) by (rule computeSize_gt)
    then show ?thesis using c(1) by blast
  qed
qed

lemma convolved_multi_workspace_never_fits:
  assumes "ConvolvedMultiShapeletMatrixBuilder K x y psf basis = Inr b"
    and "cmComponents b \<noteq> []"
  shows "\<exists>c \<in> set (cmComponents b).
           colRange (cmBasisWorkspace b) (getRowSize K c) = Inl OutOfBounds"
proof -
  let ?cs = "makeComponents basis psf"
  from assms(1) have b: "cmComponents b = ?cs"
    "cmBasisWorkspace b = allocate (length x)
       (foldl (\<lambda>m c. max m (getRowOrder K (convolution c))) 0 ?cs)"
    by (auto simp: ConvolvedMultiShapeletMatrixBuilder_def MatrixBuilder_def Let_def
        getDataSize_def split: if_splits)
  from largest_row_size_exceeds [of ?cs "\<lambda>c. getRowOrder K (convolution c)"] assms(2)
  obtain c where "c \<in> set ?cs"
    "foldl (\<lambda>m c. max m (getRowOrder K (convolution c))) 0 ?cs
       < computeSize (getRowOrder K (convolution c))"
    unfolding b(1) by blast
  then have "c \<in> set ?cs \<and> colRange (allocate (length x)
       (foldl (\<lambda>m c. max m (getRowOrder K (convolution c))) 0 ?cs)) (getRowSize K c)
       = Inl OutOfBounds"
    by (simp add: colRange_def allocate_def ncols_def getRowSize_def)
  then show ?thesis unfolding b by blast
qed

text \<open>
  The two tables of \<open>ShapeletHelper\<close> are made with \<open>maxOrder + 1\<close> rows and one column per
  sample, while \<open>_fillHermite1d\<close> and \<open>apply\<close> address them by column with the degree and
  combine a column with arrays that have one entry per sample. So \<open>apply\<close> of a helper
  that the constructor made returns only when the number of samples is \<open>maxOrder + 1\<close>.
\<close>

lemma shapelet_tables_shape:
  "nrows (xWorkspace (ShapeletHelper dataSize order)) = order + 1"
  "ncols (xWorkspace (ShapeletHelper dataSize order)) = dataSize"
  "nrows (yWorkspace (ShapeletHelper dataSize order)) = order + 1"
  "ncols (yWorkspace (ShapeletHelper dataSize order)) = dataSize"
  by (simp_all add: ShapeletHelper_def makeView_def ncols_def)

lemma constructed_helper_returns_only_square:
  assumes "ShapeletHelper_apply K (ShapeletHelper dataSize m) n eh out = Inr r"
  shows "dataSize = m + 1"
proof -
  obtain h' r' where r: "r = (h', r')" by (cases r) auto
  let ?h = "ShapeletHelper dataSize m"
  from assms [unfolded r ShapeletHelper_apply_Inr] obtain xw yw where s:
    "length (xt eh) = length (yt eh)" "length (xt eh) = length (expWorkspace ?h)"
    "fillHermite1d K n (xWorkspace ?h) (xt eh) = Inr xw"
    "foldE (accumulateStep (envelope eh) xw yw) (packedIndices n) out = Inr r'"
    by blast
  have d: "length (envelope eh) = dataSize"
    using s(1,2) by (simp add: envelope_def ShapeletHelper_def makeView1_def)
  obtain rest where "packedIndices n = (0, 0, 0) # rest" using packedIndices_head by blast
  then obtain v where "accumulateStep (envelope eh) xw yw out (0, 0, 0) = Inr v"
    using s(4) by (auto simp: andThen_Inr_iff)
  then have c: "0 < ncols xw" "length (columns xw ! 0) = dataSize"
    using d by (simp_all add: accumulateStep_Inr)
  have "0 < ncols (xWorkspace ?h)" using c(1) fillHermite1d_Inr(3) [OF s(3)] by simp
  then have "columns xw ! 0 = replicate (nrows (xWorkspace ?h)) (BASIS_NORMALIZATION K)"
    using fillHermite1d_Inr(4) [OF s(3)] by simp
  then show ?thesis using c(2) by (simp add: ShapeletHelper_def makeView_def)
qed

lemma shapelet_three_samples_order_zero:
  "andThen (ShapeletMatrixBuilder [0, 1, 2] [0, 0, 0] 0)
     (\<lambda>b. ShapeletMatrixBuilder_apply circles b (allocate 3 1) 1) = Inl SizeMismatch"
  by (simp add: eval_defs upt_rec)

text \<open>
  C3, at three samples and order 1, through the factory. The claim has the evaluator
  fill, for every coordinate sequence and every order, the two tables by the three-term
  recurrence. The factory returns a shapelet builder whose helper has tables of 2 rows and
  3 columns. \<open>_fillHermite1d\<close> sets column 0 (2 entries) to the constant and then assigns
  \<open>sqrt(2) * coord * workspace.col(0)\<close> to column 1: \<open>coord\<close> has 3 entries, the columns
  have 2, and the evaluation ends there with the table of degree 1 not filled.
\<close>

theorem hermite_tables_three_samples_order_one:
  "(makeMatrixBuilder_order [0, 1, 2] [0, 0, 0] 1 :: error + real MatrixBuilder)
     = make_shared Shapelet (ShapeletMatrixBuilder [0, 1, 2] [0, 0, 0] 1)
   \<and> map_sum id (\<lambda>b. (nrows (xWorkspace (sShapeletHelper b)),
                      ncols (xWorkspace (sShapeletHelper b)),
                      nrows (yWorkspace (sShapeletHelper b)),
                      ncols (yWorkspace (sShapeletHelper b))))
       (ShapeletMatrixBuilder [0, 1, 2] [0, 0, 0] 1) = Inr (2, 3, 2, 3)
   \<and> fillHermite1d circles 1 (makeView 2 3) [0, 1, 2] = Inl SizeMismatch
   \<and> andThen (makeMatrixBuilder_order [0, 1, 2] [0, 0, 0] 1)
       (\<lambda>b. MatrixBuilder_apply circles b (allocate 3 3) 1) = Inl SizeMismatch"
  by (simp add: eval_defs factory_defs upt_rec)

text \<open>
  C5, through the factory. The claim has the output of the builder of two components
  equal the sum of the outputs of the builders of each component. At four samples and the
  two components \<open>compA\<close> and \<open>compB\<close> of order 1, \<open>apply\<close> ends with a size mismatch for the
  builder of both components and for each of the two builders of one component: there is
  no output to compare. At two samples and the components \<open>compC\<close> of order 0 and \<open>compB\<close> of
  order 1, \<open>apply\<close> of the builder of both components returns, and \<open>apply\<close> of the builder
  of \<open>compC\<close> alone ends with a size mismatch: the sum that the claim equates the output
  with does not exist.
\<close>

theorem multi_shapelet_components_abort:
  "andThen (makeMatrixBuilder_basis [0, 1, 2, 3] [0, 0, 0, 0]
              \<lparr>basisSize = 2, basisComponents = [compA, compB]\<rparr>)
     (\<lambda>b. MatrixBuilder_apply circles b (allocate 4 2) 1) = Inl SizeMismatch
   \<and> andThen (makeMatrixBuilder_basis [0, 1, 2, 3] [0, 0, 0, 0]
              \<lparr>basisSize = 2, basisComponents = [compA]\<rparr>)
     (\<lambda>b. MatrixBuilder_apply circles b (allocate 4 2) 1) = Inl SizeMismatch
   \<and> andThen (makeMatrixBuilder_basis [0, 1, 2, 3] [0, 0, 0, 0]
              \<lparr>basisSize = 2, basisComponents = [compB]\<rparr>)
     (\<lambda>b. MatrixBuilder_apply circles b (allocate 4 2) 1) = Inl SizeMismatch
   \<and> (\<exists>r. andThen (makeMatrixBuilder_basis [0, 1] [0, 0]
              \<lparr>basisSize = 2, basisComponents = [compC, compB]\<rparr>)
         (\<lambda>b. MatrixBuilder_apply circles b (allocate 2 2) 1) = Inr r)
   \<and> andThen (makeMatrixBuilder_basis [0, 1] [0, 0]
              \<lparr>basisSize = 2, basisComponents = [compC]\<rparr>)
     (\<lambda>b. MatrixBuilder_apply circles b (allocate 2 2) 1) = Inl SizeMismatch"
  by (simp add: eval_defs factory_defs upt_rec)

text \<open>
  C8, at two samples, order 1 and a PSF of order 0, through the factory. The claim has
  \<open>apply\<close> callable repeatedly, with two calls at the same ellipse producing the same output
  matrix, for every builder. The factory returns a convolved shapelet builder, and the
  first call of its \<open>apply\<close> ends out of bounds, at the ellipse 1 and at the ellipse 5: no
  call produces an output matrix (for this builder none ever does:
  \<open>convolved_shapelet_never_returns\<close>).
\<close>

theorem convolved_shapelet_first_apply_aborts:
  "makeMatrixBuilder_psf_order circles [1, 2] [3, 4] psfB 1
     = make_shared ConvolvedShapelet (ConvolvedShapeletMatrixBuilder circles [1, 2] [3, 4] psfB 1)
   \<and> andThen (makeMatrixBuilder_psf_order circles [1, 2] [3, 4] psfB 1)
       (\<lambda>b. MatrixBuilder_apply circles b (allocate 2 3) 1) = Inl OutOfBounds
   \<and> andThen (makeMatrixBuilder_psf_order circles [1, 2] [3, 4] psfB 1)
       (\<lambda>b. MatrixBuilder_apply circles b (allocate 2 3) 5) = Inl OutOfBounds"
  by (simp add: eval_defs factory_defs upt_rec)

end
